theory Spec2Isabelle
  imports
    Complex_Main
    "HOL-Library.Word"
    "HOL-Library.Signed_Division"
    "HOL-Library.Log_Nat"
begin

section \<open>Machine integers, errors and formatting primitives\<close>

text \<open>
  Go's \<open>int64\<close> and \<open>int32\<close> are words; Go's \<open>int\<close> is 64 bits wide on the build target
  (linux/amd64). Strings are byte sequences, as in Go.
\<close>

type_synonym int64 = "64 word"
type_synonym int32 = "32 word"
type_synonym byte = char

text \<open>
  Errors are values. The sentinel errors of \<open>errors.go\<close> keep their names; errors built with
  \<open>fmt.Errorf\<close> carry their message, and a wrapped error (\<open>%w\<close>) carries its cause. A run-time
  panic of the Go program (an index out of range) is an error value of its own.
\<close>

datatype error =
    ErrBucketNameRequired
  | ErrFileNotFound
  | ErrInvalidFileType
  | ErrBucketAlreadyExists
  | ErrOperationTimeout
  | Errorf string
  | Wrapped string error
  | External string
  | EOF
  | PanicIndexOutOfRange

subsection \<open>\<open>%d\<close>: decimal rendering\<close>

fun digits_of_nat :: "nat \<Rightarrow> string" where
  "digits_of_nat n =
     (if n < 10 then [char_of (48 + n)]
      else digits_of_nat (n div 10) @ [char_of (48 + n mod 10)])"

declare digits_of_nat.simps [simp del]

definition itoa :: "int \<Rightarrow> string" where
  "itoa i = (if i < 0 then CHR ''-'' # digits_of_nat (nat (- i)) else digits_of_nat (nat i))"

subsection \<open>\<open>float64\<close> and \<open>%.1f\<close>\<close>

text \<open>
  A \<open>float64\<close> is modelled by the exact rational it denotes, or one of the special values.
  Conversion from an integer and division round to the nearest value with a 53-bit
  significand, ties to even (IEEE 754 binary64; the exponent range is never left by a
  quotient of two 64-bit integers). \<open>%.1f\<close> prints the exact binary value correctly rounded
  to one decimal, ties to even, as \<open>strconv\<close> does.
\<close>

datatype float64 = Finite rat | NegZero | PosInf | NegInf | NaN

definition round_half_even :: "rat \<Rightarrow> int" where
  "round_half_even x =
     (let f = \<lfloor>x\<rfloor>; d = x - of_int f
      in if d < 1 / 2 then f
         else if 1 / 2 < d then f + 1
         else if even f then f else f + 1)"

definition binade :: "rat \<Rightarrow> int" where
  \<comment> \<open>for \<open>0 < x\<close>: the \<open>e\<close> with \<open>2 ^ e \<le> x < 2 ^ (e + 1)\<close>\<close>
  "binade x = (if 1 \<le> x then bitlen \<lfloor>x\<rfloor> - 1 else - bitlen (\<lceil>1 / x\<rceil> - 1))"

definition pow2 :: "int \<Rightarrow> rat" where
  "pow2 e = (if 0 \<le> e then 2 ^ nat e else 1 / 2 ^ nat (- e))"

definition float64_round :: "rat \<Rightarrow> rat" where
  "float64_round x =
     (if x = 0 then 0
      else let ulp = pow2 (binade \<bar>x\<bar> - 52)
           in sgn x * of_int (round_half_even (\<bar>x\<bar> / ulp)) * ulp)"

definition float64_quot :: "int \<Rightarrow> int \<Rightarrow> float64" where
  \<comment> \<open>the Go expression \<open>float64(b) / float64(d)\<close> for two \<open>int64\<close> values\<close>
  "float64_quot b d =
     (if d = 0 then (if b = 0 then NaN else if 0 < b then PosInf else NegInf)
      else if b = 0 then (if d < 0 then NegZero else Finite 0)
      else Finite (float64_round (float64_round (of_int b) / float64_round (of_int d))))"

fun sprintf_1f :: "float64 \<Rightarrow> string" where
  "sprintf_1f (Finite x) =
     (let t = round_half_even (\<bar>x\<bar> * 10)
      in (if x < 0 then ''-'' else '''') @ itoa (t div 10) @ ''.'' @ itoa (t mod 10))"
| "sprintf_1f NegZero = ''-0.0''"
| "sprintf_1f PosInf = ''+Inf''"
| "sprintf_1f NegInf = ''-Inf''"
| "sprintf_1f NaN = ''NaN''"

subsection \<open>\<open>int64\<close> division\<close>

definition int64_quo :: "int64 \<Rightarrow> int64 \<Rightarrow> int64" where
  \<comment> \<open>Go's \<open>/\<close> on \<open>int64\<close>: truncated towards zero, wrapping\<close>
  "int64_quo a b = word_of_int (sint a sdiv sint b)"

section \<open>\<open>formatBytes\<close> (s3\_repository.go)\<close>

text \<open>
  The \<open>for\<close> loop of \<open>formatBytes\<close>: \<open>n\<close> is the loop variable, \<open>div\<close> and \<open>exp\<close> are the
  two accumulators; the result is their value when the loop condition \<open>n >= unit\<close> fails.
\<close>

function formatBytes_loop :: "int64 \<Rightarrow> int64 \<Rightarrow> int \<Rightarrow> int64 \<times> int" where
  "formatBytes_loop n div' ex =
     (if 1024 \<le>s n then formatBytes_loop (int64_quo n 1024) (div' * 1024) (ex + 1)
      else (div', ex))"
  by pat_completeness auto
termination
proof (relation "measure (\<lambda>(n, d, e). nat (sint n))")
  show "wf (measure (\<lambda>(n, d, e). nat (sint n)))"
    by simp
next
  fix n div' :: int64 and ex :: int
  assume le: "1024 \<le>s n"
  then have ge: "1024 \<le> sint n"
    by (simp add: word_sle_eq)
  have lt: "sint n < 2 ^ 63"
    using sint_lt [of n] by simp
  have q: "sint n sdiv 1024 = sint n div 1024"
    using ge by (simp add: signed_divide_int_def sgn_if)
  have "sint (word_of_int (sint n div 1024) :: int64) = sint n div 1024"
    using ge lt by (simp add: sint_sbintrunc' signed_take_bit_int_eq_self)
  then have "sint (int64_quo n 1024) = sint n div 1024"
    by (simp add: int64_quo_def q)
  then show "((int64_quo n 1024, div' * 1024, ex + 1), n, div', ex)
      \<in> measure (\<lambda>(n, d, e). nat (sint n))"
    using ge by simp
qed

declare formatBytes_loop.simps [simp del]

definition formatBytes :: "int64 \<Rightarrow> error + string" where
  "formatBytes b =
     (if b <s 1024 then Inr (itoa (sint b) @ '' B'')
      else let (div', ex) = formatBytes_loop (int64_quo b 1024) 1024 0
           in if 0 \<le> ex \<and> ex < 6
              then Inr (sprintf_1f (float64_quot (sint b) (sint div')) @ '' ''
                         @ [''KMGTPE'' ! nat ex] @ ''B'')
              else Inl PanicIndexOutOfRange)"

text \<open>
  The formatter in the words of the specification: divide by 1024 repeatedly, counting the
  divisions, until the quotient falls below 1024.
\<close>

function spec_divisions :: "int \<Rightarrow> nat" where
  "spec_divisions q = (if q < 1024 then 0 else Suc (spec_divisions (q div 1024)))"
  by pat_completeness auto
termination
  by (relation "measure nat") auto

declare spec_divisions.simps [simp del]


section \<open>Strings, paths and identifiers\<close>

text \<open>
  Go's strings are bytes, read as UTF-8 by the functions of package \<open>strings\<close> that deal
  with runes. A rune is an integer code point.
\<close>

type_synonym rune = int

definition RuneError :: rune where
  "RuneError = 0xFFFD"

definition byte_val :: "byte \<Rightarrow> int" where
  "byte_val c = of_char c"

definition is_cont :: "int \<Rightarrow> bool" where
  "is_cont b = (0x80 \<le> b \<and> b \<le> 0xBF)"

definition accept_lo :: "int \<Rightarrow> int" where
  "accept_lo p0 = (if p0 = 0xE0 then 0xA0 else if p0 = 0xF0 then 0x90 else 0x80)"

definition accept_hi :: "int \<Rightarrow> int" where
  "accept_hi p0 = (if p0 = 0xED then 0x9F else if p0 = 0xF4 then 0x8F else 0xBF)"

text \<open>
  \<open>utf8.DecodeRuneInString\<close>: the rune at the head of the bytes and its width. A byte below
  \<open>0x80\<close> is itself; the lead bytes \<open>C2\<close> to \<open>F4\<close> start sequences of two to four bytes whose
  second byte must lie in the range the lead byte accepts (no overlong form, no surrogate,
  nothing above \<open>U+10FFFF\<close>); anything else is \<open>RuneError\<close> of width 1.
\<close>

fun DecodeRune :: "byte list \<Rightarrow> rune \<times> nat" where
  "DecodeRune [] = (RuneError, 0)"
| "DecodeRune (c0 # cs) =
     (let p0 = byte_val c0
      in if p0 < 0x80 then (p0, 1)
         else if p0 < 0xC2 \<or> 0xF4 < p0 then (RuneError, 1)
         else
           (case cs of
              [] \<Rightarrow> (RuneError, 1)
            | c1 # cs1 \<Rightarrow>
                (let b1 = byte_val c1
                 in if b1 < accept_lo p0 \<or> accept_hi p0 < b1 then (RuneError, 1)
                    else if p0 < 0xE0 then ((p0 mod 32) * 64 + b1 mod 64, 2)
                    else
                      (case cs1 of
                         [] \<Rightarrow> (RuneError, 1)
                       | c2 # cs2 \<Rightarrow>
                           (let b2 = byte_val c2
                            in if \<not> is_cont b2 then (RuneError, 1)
                               else if p0 < 0xF0
                                 then ((p0 mod 16) * 4096 + (b1 mod 64) * 64 + b2 mod 64, 3)
                               else
                                 (case cs2 of
                                    [] \<Rightarrow> (RuneError, 1)
                                  | c3 # cs3 \<Rightarrow>
                                      (let b3 = byte_val c3
                                       in if \<not> is_cont b3 then (RuneError, 1)
                                          else ((p0 mod 8) * 262144 + (b1 mod 64) * 4096
                                                  + (b2 mod 64) * 64 + b3 mod 64, 4))))))))"

text \<open>\<open>utf8.AppendRune\<close>: an invalid rune is written as \<open>RuneError\<close>.\<close>

definition EncodeRune :: "rune \<Rightarrow> byte list" where
  "EncodeRune r =
     (if 0 \<le> r \<and> r < 0x80 then [char_of r]
      else if 0 \<le> r \<and> r < 0x800 then [char_of (0xC0 + r div 64), char_of (0x80 + r mod 64)]
      else if r < 0 \<or> 0x10FFFF < r \<or> (0xD800 \<le> r \<and> r \<le> 0xDFFF)
        then [CHR 0xEF, CHR 0xBF, CHR 0xBD]
      else if r < 0x10000
        then [char_of (0xE0 + r div 4096), char_of (0x80 + (r div 64) mod 64),
              char_of (0x80 + r mod 64)]
      else [char_of (0xF0 + r div 262144), char_of (0x80 + (r div 4096) mod 64),
            char_of (0x80 + (r div 64) mod 64), char_of (0x80 + r mod 64)])"

text \<open>The runes of a string, as \<open>for _, c := range s\<close> yields them.\<close>

fun runes :: "byte list \<Rightarrow> rune list" where
  "runes [] = []"
| "runes (c # cs) = fst (DecodeRune (c # cs)) # runes (drop (snd (DecodeRune (c # cs)) - 1) cs)"

text \<open>
  \<open>unicode.ToLower\<close> folds \<open>A\<close> to \<open>Z\<close> itself and looks every rune above \<open>U+007F\<close> up in the
  case table of package \<open>unicode\<close>. That table is not part of the repository: it is the
  parameter \<open>table\<close>. \<open>strings.ToLower\<close> is \<open>strings.Map(unicode.ToLower, s)\<close>: every rune is
  mapped and written back, an invalid byte as \<open>RuneError\<close>, and a negative result of the
  mapping is dropped (on a string of ASCII bytes this is the byte-wise folding of Go's fast
  path).
\<close>

definition unicode_ToLower :: "(rune \<Rightarrow> rune) \<Rightarrow> rune \<Rightarrow> rune" where
  "unicode_ToLower table r =
     (if r \<le> 0x7F then (if 0x41 \<le> r \<and> r \<le> 0x5A then r + 32 else r) else table r)"

definition ToLower :: "(rune \<Rightarrow> rune) \<Rightarrow> string \<Rightarrow> string" where
  "ToLower table s =
     concat (map (\<lambda>c. if 0 \<le> unicode_ToLower table c then EncodeRune (unicode_ToLower table c)
                        else [])
               (runes s))"

text \<open>
  \<open>unicode.IsSpace\<close>: the runes with the Unicode property White Space.
  \<open>strings.TrimSpace\<close> removes the leading runes that are spaces, decoding from the left,
  and then the trailing ones, decoding from the right with \<open>utf8.DecodeLastRuneInString\<close>
  (which looks back at most three bytes for the start of the last rune).
\<close>

definition IsSpace :: "rune \<Rightarrow> bool" where
  "IsSpace r =
     ((0x09 \<le> r \<and> r \<le> 0x0D) \<or> r = 0x20 \<or> r = 0x85 \<or> r = 0xA0 \<or> r = 0x1680 \<or>
      (0x2000 \<le> r \<and> r \<le> 0x200A) \<or> r = 0x2028 \<or> r = 0x2029 \<or> r = 0x202F \<or>
      r = 0x205F \<or> r = 0x3000)"

fun TrimLeftSpace :: "byte list \<Rightarrow> byte list" where
  "TrimLeftSpace [] = []"
| "TrimLeftSpace (c # cs) =
     (if IsSpace (fst (DecodeRune (c # cs)))
      then TrimLeftSpace (drop (snd (DecodeRune (c # cs)) - 1) cs)
      else c # cs)"

definition RuneStart :: "byte \<Rightarrow> bool" where
  "RuneStart c = (\<not> is_cont (byte_val c))"

definition DecodeLastRune :: "byte list \<Rightarrow> rune \<times> nat" where
  "DecodeLastRune s =
     (if s = [] then (RuneError, 0)
      else if byte_val (last s) < 0x80 then (byte_val (last s), 1)
      else
        (case filter (\<lambda>k. k < length s \<and> RuneStart (s ! (length s - 1 - k))) [1, 2, 3] of
           [] \<Rightarrow> (RuneError, 1)
         | k # ks \<Rightarrow>
             (if snd (DecodeRune (drop (length s - 1 - k) s)) = k + 1
              then DecodeRune (drop (length s - 1 - k) s)
              else (RuneError, 1))))"

function TrimRightSpace :: "byte list \<Rightarrow> byte list" where
  "TrimRightSpace s =
     (if s \<noteq> [] \<and> IsSpace (fst (DecodeLastRune s))
      then TrimRightSpace (take (length s - snd (DecodeLastRune s)) s)
      else s)"
  by pat_completeness auto
termination
proof (relation "measure length")
  show "wf (measure length)"
    by simp
next
  fix s :: "byte list"
  assume a: "s \<noteq> [] \<and> IsSpace (fst (DecodeLastRune s))"
  have "0 < snd (DecodeLastRune s)"
    using a by (auto simp: DecodeLastRune_def split: list.splits)
  then show "(take (length s - snd (DecodeLastRune s)) s, s) \<in> measure length"
    using a by simp
qed

declare TrimRightSpace.simps [simp del]

definition TrimSpace :: "string \<Rightarrow> string" where
  "TrimSpace s = TrimRightSpace (TrimLeftSpace s)"

definition HasPrefix :: "string \<Rightarrow> string \<Rightarrow> bool" where
  "HasPrefix s p = (take (length p) s = p)"

primrec Contains :: "string \<Rightarrow> string \<Rightarrow> bool" where
  "Contains [] sub = (sub = [])"
| "Contains (c # cs) sub = (HasPrefix (c # cs) sub \<or> Contains cs sub)"

text \<open>
  \<open>filepath.Ext\<close>: the suffix beginning at the final dot of the final path element, empty
  when there is no dot. The scan runs from the end of the name and stops at a separator.
\<close>

fun ext_scan :: "string \<Rightarrow> string \<Rightarrow> string" where
  "ext_scan [] acc = []"
| "ext_scan (c # cs) acc =
     (if c = CHR ''/'' then []
      else if c = CHR ''.'' then c # acc
      else ext_scan cs (c # acc))"

definition Ext :: "string \<Rightarrow> string" where
  "Ext path = ext_scan (rev path) []"

text \<open>
  A UUID is sixteen bytes, read here as one 128-bit word (big-endian). \<open>String\<close> prints the
  32 hexadecimal digits in the groups 8-4-4-4-12.
\<close>

type_synonym uuid = "128 word"

definition hex_digit :: "int \<Rightarrow> char" where
  "hex_digit n = ''0123456789abcdef'' ! nat (n mod 16)"

definition uuid_hex :: "uuid \<Rightarrow> nat list \<Rightarrow> string" where
  "uuid_hex u ks = map (\<lambda>k. hex_digit (uint u div 16 ^ (31 - k))) ks"

definition uuid_String :: "uuid \<Rightarrow> string" where
  "uuid_String u =
     uuid_hex u [0..<8] @ ''-'' @ uuid_hex u [8..<12] @ ''-'' @ uuid_hex u [12..<16] @ ''-''
       @ uuid_hex u [16..<20] @ ''-'' @ uuid_hex u [20..<32]"

section \<open>Entities (entity.go) and the seekable stream\<close>

text \<open>
  An \<open>io.ReadSeekCloser\<close>: the bytes, the read position, and the errors its \<open>Read\<close> and \<open>Seek\<close>
  return, if they fail. \<open>Read\<close> into a buffer of \<open>k\<close> bytes returns the next bytes, at most \<open>k\<close>,
  and advances; at the end it returns no byte and \<open>io.EOF\<close>.
\<close>

record stream =
  data :: "byte list"
  pos :: nat
  read_err :: "error option"
  seek_err :: "error option"

definition stream_Read :: "stream \<Rightarrow> nat \<Rightarrow> byte list \<times> error option \<times> stream" where
  "stream_Read s k =
     (case read_err s of
        Some e \<Rightarrow> ([], Some e, s)
      | None \<Rightarrow>
          if length (data s) \<le> pos s then ([], Some EOF, s)
          else (take k (drop (pos s) (data s)), None,
                s\<lparr>pos := pos s + length (take k (drop (pos s) (data s)))\<rparr>))"

definition stream_SeekStart :: "stream \<Rightarrow> error + stream" where
  \<comment> \<open>\<open>Seek(0, io.SeekStart)\<close>\<close>
  "stream_SeekStart s = (case seek_err s of Some e \<Rightarrow> Inl e | None \<Rightarrow> Inr (s\<lparr>pos := 0\<rparr>))"

type_synonym time = int

record File =
  Name :: string
  URL :: string
  Content :: "stream option"
  Size :: int64
  ContentType :: string

record FileSummary =
  fs_Key :: string
  fs_URL :: string
  fs_Size :: int64
  fs_HumanReadableSize :: string
  fs_Extension :: string
  fs_StorageClass :: string
  fs_LastModified :: time

record BucketStats =
  BucketName :: string
  TotalFiles :: int
  TotalSizeBytes :: int64
  TotalSizeFormatted :: string

record BucketSummary =
  bs_Name :: string
  bs_CreationDate :: time

record PaginatedFiles =
  Files :: "FileSummary list"
  NextToken :: string

section \<open>The storage client and the environment\<close>

text \<open>
  A \<open>context.Context\<close> as the service builds it: the caller's context, wrapped with a
  timeout (in seconds) by \<open>context.WithTimeout\<close> or made cancellable by
  \<open>errgroup.WithContext\<close>; the flag of \<open>WithCancel\<close> says whether the group has cancelled it.
\<close>

datatype ctx = Background | WithTimeout nat ctx | WithCancel bool ctx

record PutObjectInput =
  po_Bucket :: string
  po_Key :: string
  po_Body :: "stream option"

record ListObjectsV2Input =
  lo_Bucket :: string
  lo_Prefix :: "string option"
  lo_ContinuationToken :: "string option"
  lo_MaxKeys :: "int32 option"

record s3_Object =
  obj_Key :: "string option"
  obj_Size :: "int64 option"
  obj_StorageClass :: string
  obj_LastModified :: "time option"

record ListObjectsV2Output =
  Contents :: "s3_Object list"
  NextContinuationToken :: "string option"

record s3_Bucket =
  b_Name :: "string option"
  b_CreationDate :: "time option"

text \<open>The requests the S3 client can be sent, and the events a run leaves behind.\<close>

datatype s3_call =
    S3PutObject PutObjectInput
  | S3ListObjectsV2 ListObjectsV2Input
  | S3DeleteObject string string
  | S3GetObject string string
  | S3PresignGetObject string string nat
  | S3HeadBucket string
  | S3CreateBucket string
  | S3ListBuckets
  | S3DeleteBucket string
  | S3DeleteObjects string "string option list"

datatype event = StreamRead | StreamSeek | UUIDNewV7 | S3 s3_call

text \<open>
  What lies outside the repository is a parameter: the case table of package \<open>unicode\<close>
  (for the runes above \<open>U+007F\<close>), the content sniffer of \<open>net/http\<close>, the
  outcome of \<open>uuid.NewV7\<close>, the configured region, and the answer of the S3 service to each
  request under a given context.
\<close>

record env =
  UnicodeToLower :: "rune \<Rightarrow> rune"
  DetectContentType :: "byte list \<Rightarrow> string"
  NewV7 :: "error + uuid"
  region :: string
  PutObject :: "ctx \<Rightarrow> PutObjectInput \<Rightarrow> error option"
  ListObjectsV2 :: "ctx \<Rightarrow> ListObjectsV2Input \<Rightarrow> error + ListObjectsV2Output"
  DeleteObject :: "ctx \<Rightarrow> string \<Rightarrow> string \<Rightarrow> error option"
  GetObject :: "ctx \<Rightarrow> string \<Rightarrow> string \<Rightarrow> error + stream"
  PresignGetObject :: "ctx \<Rightarrow> string \<Rightarrow> string \<Rightarrow> nat \<Rightarrow> error + string"
  HeadBucket :: "ctx \<Rightarrow> string \<Rightarrow> error option"
  CreateBucketS3 :: "ctx \<Rightarrow> string \<Rightarrow> error option"
  ListBuckets :: "ctx \<Rightarrow> error + s3_Bucket list"
  DeleteBucketS3 :: "ctx \<Rightarrow> string \<Rightarrow> error option"
  DeleteObjects :: "ctx \<Rightarrow> string \<Rightarrow> string option list \<Rightarrow> error option"

definition ToString :: "string option \<Rightarrow> string" where
  "ToString p = (case p of None \<Rightarrow> [] | Some v \<Rightarrow> v)"

definition ToInt64 :: "int64 option \<Rightarrow> int64" where
  "ToInt64 p = (case p of None \<Rightarrow> 0 | Some v \<Rightarrow> v)"

definition ToTime :: "time option \<Rightarrow> time" where
  "ToTime p = (case p of None \<Rightarrow> 0 | Some v \<Rightarrow> v)"

definition object_url :: "string \<Rightarrow> string \<Rightarrow> string \<Rightarrow> string" where
  \<comment> \<open>\<open>fmt.Sprintf("https://%s.s3.%s.amazonaws.com/%s", bucket, region, key)\<close>\<close>
  "object_url bucket reg key = ''https://'' @ bucket @ ''.s3.'' @ reg @ ''.amazonaws.com/'' @ key"

section \<open>\<open>S3Repository\<close> (s3\_repository.go)\<close>

definition S3Repository_Upload :: "env \<Rightarrow> ctx \<Rightarrow> string \<Rightarrow> File \<Rightarrow> (error + string) \<times> event list" where
  "S3Repository_Upload r c bucket file =
     (let input = \<lparr>po_Bucket = bucket, po_Key = Name file, po_Body = Content file\<rparr>
      in case PutObject r c input of
           Some err \<Rightarrow> (Inl (Wrapped ''failed to upload'' err), [S3 (S3PutObject input)])
         | None \<Rightarrow> (Inr (object_url bucket (region r) (Name file)), [S3 (S3PutObject input)]))"

fun List_files :: "env \<Rightarrow> string \<Rightarrow> s3_Object list \<Rightarrow> error + FileSummary list" where
  "List_files r bucket [] = Inr []"
| "List_files r bucket (obj # objs) =
     (let key = ToString (obj_Key obj); size = ToInt64 (obj_Size obj)
      in case formatBytes size of
           Inl p \<Rightarrow> Inl p
         | Inr human \<Rightarrow>
             (case List_files r bucket objs of
                Inl p \<Rightarrow> Inl p
              | Inr files \<Rightarrow>
                  Inr (\<lparr>fs_Key = key, fs_URL = object_url bucket (region r) key, fs_Size = size,
                        fs_HumanReadableSize = human,
                        fs_Extension = ToLower (UnicodeToLower r) (Ext key),
                        fs_StorageClass = obj_StorageClass obj,
                        fs_LastModified = ToTime (obj_LastModified obj)\<rparr> # files)))"

definition S3Repository_List ::
  "env \<Rightarrow> ctx \<Rightarrow> string \<Rightarrow> string \<Rightarrow> string \<Rightarrow> int32 \<Rightarrow> (error + PaginatedFiles) \<times> event list" where
  "S3Repository_List r c bucket prefix token limit =
     (let input = \<lparr>lo_Bucket = bucket, lo_Prefix = Some prefix,
                    lo_ContinuationToken = (if token = [] then None else Some token),
                    lo_MaxKeys = Some limit\<rparr>
      in case ListObjectsV2 r c input of
           Inl err \<Rightarrow> (Inl (Wrapped ''failed to list objects'' err), [S3 (S3ListObjectsV2 input)])
         | Inr output \<Rightarrow>
             (case List_files r bucket (Contents output) of
                Inl p \<Rightarrow> (Inl p, [S3 (S3ListObjectsV2 input)])
              | Inr files \<Rightarrow>
                  (Inr \<lparr>Files = files, NextToken = ToString (NextContinuationToken output)\<rparr>,
                   [S3 (S3ListObjectsV2 input)])))"

definition S3Repository_Delete :: "env \<Rightarrow> ctx \<Rightarrow> string \<Rightarrow> string \<Rightarrow> error option \<times> event list" where
  "S3Repository_Delete r c bucket key = (DeleteObject r c bucket key, [S3 (S3DeleteObject bucket key)])"

definition S3Repository_Download :: "env \<Rightarrow> ctx \<Rightarrow> string \<Rightarrow> string \<Rightarrow> (error + stream) \<times> event list" where
  "S3Repository_Download r c bucket key = (GetObject r c bucket key, [S3 (S3GetObject bucket key)])"

definition S3Repository_GetPresignURL ::
  "env \<Rightarrow> ctx \<Rightarrow> string \<Rightarrow> string \<Rightarrow> nat \<Rightarrow> (error + string) \<times> event list" where
  "S3Repository_GetPresignURL r c bucket key exp' =
     (PresignGetObject r c bucket key exp', [S3 (S3PresignGetObject bucket key exp')])"

definition S3Repository_CheckBucketExists ::
  "env \<Rightarrow> ctx \<Rightarrow> string \<Rightarrow> (error + bool) \<times> event list" where
  "S3Repository_CheckBucketExists r c bucket =
     (case HeadBucket r c bucket of
        Some err \<Rightarrow> (Inr False, [S3 (S3HeadBucket bucket)])
      | None \<Rightarrow> (Inr True, [S3 (S3HeadBucket bucket)]))"

definition S3Repository_CreateBucket :: "env \<Rightarrow> ctx \<Rightarrow> string \<Rightarrow> error option \<times> event list" where
  "S3Repository_CreateBucket r c bucket = (CreateBucketS3 r c bucket, [S3 (S3CreateBucket bucket)])"

definition S3Repository_ListBuckets :: "env \<Rightarrow> ctx \<Rightarrow> (error + BucketSummary list) \<times> event list" where
  "S3Repository_ListBuckets r c =
     (case ListBuckets r c of
        Inl err \<Rightarrow> (Inl err, [S3 S3ListBuckets])
      | Inr bs \<Rightarrow>
          (Inr (map (\<lambda>b. \<lparr>bs_Name = ToString (b_Name b),
                             bs_CreationDate = ToTime (b_CreationDate b)\<rparr>) bs),
           [S3 S3ListBuckets]))"

definition S3Repository_DeleteBucket :: "env \<Rightarrow> ctx \<Rightarrow> string \<Rightarrow> error option \<times> event list" where
  "S3Repository_DeleteBucket r c bucket = (DeleteBucketS3 r c bucket, [S3 (S3DeleteBucket bucket)])"

definition bucket_only :: "string \<Rightarrow> ListObjectsV2Input" where
  \<comment> \<open>\<open>&s3.ListObjectsV2Input{Bucket: aws.String(bucket)}\<close>\<close>
  "bucket_only bucket =
     \<lparr>lo_Bucket = bucket, lo_Prefix = None, lo_ContinuationToken = None, lo_MaxKeys = None\<rparr>"

definition S3Repository_DeleteAll :: "env \<Rightarrow> ctx \<Rightarrow> string \<Rightarrow> error option \<times> event list" where
  "S3Repository_DeleteAll r c bucket =
     (case ListObjectsV2 r c (bucket_only bucket) of
        Inl err \<Rightarrow> (Some err, [S3 (S3ListObjectsV2 (bucket_only bucket))])
      | Inr out \<Rightarrow>
          if Contents out = [] then (None, [S3 (S3ListObjectsV2 (bucket_only bucket))])
          else (DeleteObjects r c bucket (map obj_Key (Contents out)),
                [S3 (S3ListObjectsV2 (bucket_only bucket)),
                 S3 (S3DeleteObjects bucket (map obj_Key (Contents out)))]))"

definition totalSize :: "s3_Object list \<Rightarrow> int64" where
  \<comment> \<open>the loop \<open>totalSize += aws.ToInt64(obj.Size)\<close>, from 0\<close>
  "totalSize objs = foldl (\<lambda>acc obj. acc + ToInt64 (obj_Size obj)) 0 objs"

definition S3Repository_GetStats :: "env \<Rightarrow> ctx \<Rightarrow> string \<Rightarrow> (error + BucketStats) \<times> event list" where
  "S3Repository_GetStats r c bucket =
     (case ListObjectsV2 r c (bucket_only bucket) of
        Inl err \<Rightarrow> (Inl err, [S3 (S3ListObjectsV2 (bucket_only bucket))])
      | Inr out \<Rightarrow>
          (case formatBytes (totalSize (Contents out)) of
             Inl p \<Rightarrow> (Inl p, [S3 (S3ListObjectsV2 (bucket_only bucket))])
           | Inr formatted \<Rightarrow>
               (Inr \<lparr>BucketName = bucket, TotalFiles = int (length (Contents out)),
                     TotalSizeBytes = totalSize (Contents out),
                     TotalSizeFormatted = formatted\<rparr>,
                [S3 (S3ListObjectsV2 (bucket_only bucket))])))"


section \<open>The upload service (\<open>uploadService\<close>, package upload)\<close>

subsection \<open>Validators\<close>

definition isLowerAlnum :: "char \<Rightarrow> bool" where
  \<comment> \<open>the class \<open>[a-z0-9]\<close>\<close>
  "isLowerAlnum c =
     ((97 \<le> (of_char c :: nat) \<and> (of_char c :: nat) \<le> 122) \<or>
      (48 \<le> (of_char c :: nat) \<and> (of_char c :: nat) \<le> 57))"

definition isNameByte :: "char \<Rightarrow> bool" where
  \<comment> \<open>the class \<open>[a-z0-9.-]\<close>\<close>
  "isNameByte c = (isLowerAlnum c \<or> c = CHR ''.'' \<or> c = CHR ''-'')"

definition bucketDNSNameRegex :: "string \<Rightarrow> bool" where
  \<comment> \<open>\<open>MatchString\<close> of \<open>^[a-z0-9][a-z0-9.-]{1,61}[a-z0-9]$\<close>\<close>
  "bucketDNSNameRegex s =
     (case s of
        [] \<Rightarrow> False
      | c # cs \<Rightarrow>
          isLowerAlnum c \<and> cs \<noteq> [] \<and> 1 \<le> length (butlast cs) \<and> length (butlast cs) \<le> 61 \<and>
          list_all isNameByte (butlast cs) \<and> isLowerAlnum (last cs))"

definition allowedTypes :: "string \<Rightarrow> bool" where
  "allowedTypes t = List.member [''image/jpeg'', ''image/png'', ''application/pdf''] t"

definition minBucketNameLength :: nat where
  "minBucketNameLength = 3"

definition maxBucketNameLength :: nat where
  "maxBucketNameLength = 63"

definition length_error :: error where
  "length_error = Errorf ''bucket name length must be between 3 and 63''"

definition pattern_error :: error where
  "pattern_error = Errorf ''invalid bucket name pattern''"

definition dots_error :: error where
  "dots_error = Errorf ''bucket name cannot contain consecutive dots''"

definition validateBucketName :: "env \<Rightarrow> string \<Rightarrow> error option" where
  "validateBucketName r bucket0 =
     (let bucket = TrimSpace (ToLower (UnicodeToLower r) bucket0)
      in if bucket = [] then Some ErrBucketNameRequired
         else if length bucket < minBucketNameLength \<or> maxBucketNameLength < length bucket
           then Some length_error
         else if \<not> bucketDNSNameRegex bucket then Some pattern_error
         else if Contains bucket ''..'' then Some dots_error
         else None)"

definition validateFile :: "env \<Rightarrow> File \<Rightarrow> error option \<times> File \<times> event list" where
  "validateFile r f =
     (case Content f of
        None \<Rightarrow> (Some (Errorf ''file content must support seeking''), f, [])
      | Some s \<Rightarrow>
          (case stream_Read s 512 of
             (buffer, rerr, s1) \<Rightarrow>
               if rerr \<noteq> None \<and> rerr \<noteq> Some EOF
               then (Some (Wrapped ''failed to read file header'' (the rerr)),
                     f\<lparr>Content := Some s1\<rparr>, [StreamRead])
               else
                 (case stream_SeekStart s1 of
                    Inl err \<Rightarrow>
                      (Some (Wrapped ''failed to reset file pointer'' err),
                       f\<lparr>Content := Some s1\<rparr>, [StreamRead, StreamSeek])
                  | Inr s2 \<Rightarrow>
                      if \<not> allowedTypes (DetectContentType r buffer)
                      then (Some ErrInvalidFileType, f\<lparr>Content := Some s2\<rparr>,
                            [StreamRead, StreamSeek])
                      else (None, f\<lparr>Content := Some s2\<rparr>, [StreamRead, StreamSeek]))))"

subsection \<open>Uploads\<close>

definition uploadTimeout :: nat where
  "uploadTimeout = 60"

definition deleteTimeout :: nat where
  "deleteTimeout = 5"

definition UploadFile ::
  "env \<Rightarrow> ctx \<Rightarrow> string \<Rightarrow> File \<Rightarrow> (error + string) \<times> File \<times> event list" where
  "UploadFile r c0 bucket file =
     (let c = WithTimeout uploadTimeout c0
      in case validateBucketName r bucket of
           Some err \<Rightarrow> (Inl err, file, [])
         | None \<Rightarrow>
             (case validateFile r file of
                (Some err, file1, ev1) \<Rightarrow> (Inl err, file1, ev1)
              | (None, file1, ev1) \<Rightarrow>
                  (case NewV7 r of
                     Inl err \<Rightarrow>
                       (Inl (Wrapped ''failed to generate unique id'' err), file1,
                        ev1 @ [UUIDNewV7])
                   | Inr uid \<Rightarrow>
                       (let file2 = file1\<lparr>Name := uuid_String uid @ Ext (Name file1)\<rparr>
                        in case S3Repository_Upload r c bucket file2 of
                             (Inl err, ev2) \<Rightarrow> (Inl err, file2, ev1 @ [UUIDNewV7] @ ev2)
                           | (Inr url, ev2) \<Rightarrow>
                               (Inr url, file2\<lparr>URL := url\<rparr>, ev1 @ [UUIDNewV7] @ ev2)))))"

text \<open>
  \<open>UploadMultipleFiles\<close> starts one task per file in an \<open>errgroup\<close>. The tasks return in some
  order, the schedule: a list of task indices. The group keeps the error of the first task
  that returns one and cancels the shared context at that moment; a task that returns a
  locator stores it in its own slot of \<open>results\<close>. Task \<open>i\<close> has its own environment \<open>envs i\<close>.
\<close>

record group =
  g_files :: "File list"
  g_results :: "string list"
  g_err :: "error option"
  g_events :: "event list"

fun run_tasks :: "(nat \<Rightarrow> env) \<Rightarrow> ctx \<Rightarrow> string \<Rightarrow> nat list \<Rightarrow> group \<Rightarrow> group" where
  "run_tasks envs c bucket [] g = g"
| "run_tasks envs c bucket (i # sched) g =
     (if i < length (g_files g) then
        (case UploadFile (envs i) (WithCancel (g_err g \<noteq> None) c) bucket (g_files g ! i) of
           (Inl err, f, ev) \<Rightarrow>
             run_tasks envs c bucket sched
               (g\<lparr>g_files := (g_files g)[i := f],
                  g_err := (if g_err g = None then Some err else g_err g),
                  g_events := g_events g @ ev\<rparr>)
         | (Inr url, f, ev) \<Rightarrow>
             run_tasks envs c bucket sched
               (g\<lparr>g_files := (g_files g)[i := f],
                  g_results := (g_results g)[i := url],
                  g_events := g_events g @ ev\<rparr>))
      else run_tasks envs c bucket sched g)"

definition UploadMultipleFiles ::
  "(nat \<Rightarrow> env) \<Rightarrow> nat list \<Rightarrow> ctx \<Rightarrow> string \<Rightarrow> File list
     \<Rightarrow> (error + string list) \<times> File list \<times> event list" where
  "UploadMultipleFiles envs sched c bucket files =
     (let g = run_tasks envs c bucket sched
                \<lparr>g_files = files, g_results = replicate (length files) [],
                 g_err = None, g_events = []\<rparr>
      in case g_err g of
           Some err \<Rightarrow> (Inl err, g_files g, g_events g)
         | None \<Rightarrow> (Inr (g_results g), g_files g, g_events g))"

subsection \<open>The other operations\<close>

definition GetDownloadURL :: "env \<Rightarrow> ctx \<Rightarrow> string \<Rightarrow> string \<Rightarrow> (error + string) \<times> event list" where
  "GetDownloadURL r c bucket key =
     (case validateBucketName r bucket of
        Some err \<Rightarrow> (Inl err, [])
      | None \<Rightarrow> S3Repository_GetPresignURL r c bucket key (15 * 60))"

definition DownloadFile :: "env \<Rightarrow> ctx \<Rightarrow> string \<Rightarrow> string \<Rightarrow> (error + stream) \<times> event list" where
  "DownloadFile r c bucket key =
     (case validateBucketName r bucket of
        Some err \<Rightarrow> (Inl err, [])
      | None \<Rightarrow> S3Repository_Download r c bucket key)"

definition ListFiles ::
  "env \<Rightarrow> ctx \<Rightarrow> string \<Rightarrow> string \<Rightarrow> string \<Rightarrow> int64 \<Rightarrow> (error + PaginatedFiles) \<times> event list" where
  "ListFiles r c bucket ext token limit0 =
     (case validateBucketName r bucket of
        Some err \<Rightarrow> (Inl err, [])
      | None \<Rightarrow>
          (let limit = (if limit0 \<le>s 0 then 10 else limit0)
           in case S3Repository_List r c bucket [] token (ucast limit) of
                (Inl err, ev) \<Rightarrow> (Inl err, ev)
              | (Inr res, ev) \<Rightarrow>
                  if ext = [] then (Inr res, ev)
                  else
                    (let target0 = ToLower (UnicodeToLower r) ext;
                         target = (if \<not> HasPrefix target0 ''.'' then ''.'' @ target0 else target0)
                     in (Inr (res\<lparr>Files :=
                                filter (\<lambda>f. ToLower (UnicodeToLower r) (fs_Extension f) = target)
                                  (Files res)\<rparr>),
                         ev))))"

definition DeleteFile :: "env \<Rightarrow> ctx \<Rightarrow> string \<Rightarrow> string \<Rightarrow> error option \<times> event list" where
  "DeleteFile r c0 bucket key =
     (let c = WithTimeout deleteTimeout c0
      in if key = [] then (Some (Errorf ''file key is required''), [])
         else case validateBucketName r bucket of
                Some err \<Rightarrow> (Some err, [])
              | None \<Rightarrow> S3Repository_Delete r c bucket key)"

definition GetBucketStats :: "env \<Rightarrow> ctx \<Rightarrow> string \<Rightarrow> (error + BucketStats) \<times> event list" where
  "GetBucketStats r c bucket =
     (case validateBucketName r bucket of
        Some err \<Rightarrow> (Inl err, [])
      | None \<Rightarrow> S3Repository_GetStats r c bucket)"

definition CreateBucket :: "env \<Rightarrow> ctx \<Rightarrow> string \<Rightarrow> error option \<times> event list" where
  "CreateBucket r c bucket =
     (case validateBucketName r bucket of
        Some err \<Rightarrow> (Some err, [])
      | None \<Rightarrow>
          (case S3Repository_CheckBucketExists r c bucket of
             (Inl err, ev) \<Rightarrow> (Some err, ev)
           | (Inr exists, ev) \<Rightarrow>
               if exists then (Some ErrBucketAlreadyExists, ev)
               else (case S3Repository_CreateBucket r c bucket of
                       (res, ev2) \<Rightarrow> (res, ev @ ev2))))"

definition DeleteBucket :: "env \<Rightarrow> ctx \<Rightarrow> string \<Rightarrow> error option \<times> event list" where
  "DeleteBucket r c bucket =
     (case validateBucketName r bucket of
        Some err \<Rightarrow> (Some err, [])
      | None \<Rightarrow> S3Repository_DeleteBucket r c bucket)"

definition EmptyBucket :: "env \<Rightarrow> ctx \<Rightarrow> string \<Rightarrow> error option \<times> event list" where
  "EmptyBucket r c bucket =
     (case validateBucketName r bucket of
        Some err \<Rightarrow> (Some err, [])
      | None \<Rightarrow> S3Repository_DeleteAll r c bucket)"

definition ListAllBuckets :: "env \<Rightarrow> ctx \<Rightarrow> (error + BucketSummary list) \<times> event list" where
  "ListAllBuckets r c = S3Repository_ListBuckets r c"


section \<open>Notions used to state the properties\<close>

text \<open>
  The naming rule in the words of the specification: the name starts and ends with a
  lowercase alphanumeric character, with only lowercase alphanumerics, dots and hyphens in
  between.
\<close>

definition spec_pattern :: "string \<Rightarrow> bool" where
  "spec_pattern t =
     (t \<noteq> [] \<and> isLowerAlnum (hd t) \<and> isLowerAlnum (last t) \<and>
      list_all isNameByte (butlast (tl t)))"

text \<open>A stream whose \<open>Read\<close> and \<open>Seek\<close> do not fail (\<open>io.EOF\<close> is not a failure).\<close>

definition io_ok :: "stream \<Rightarrow> bool" where
  "io_ok s = ((read_err s = None \<or> read_err s = Some EOF) \<and> seek_err s = None)"

text \<open>The bucket a client request names, and the buckets named along a run.\<close>

fun call_bucket :: "s3_call \<Rightarrow> string list" where
  "call_bucket (S3PutObject i) = [po_Bucket i]"
| "call_bucket (S3ListObjectsV2 i) = [lo_Bucket i]"
| "call_bucket (S3DeleteObject b k) = [b]"
| "call_bucket (S3GetObject b k) = [b]"
| "call_bucket (S3PresignGetObject b k t) = [b]"
| "call_bucket (S3HeadBucket b) = [b]"
| "call_bucket (S3CreateBucket b) = [b]"
| "call_bucket S3ListBuckets = []"
| "call_bucket (S3DeleteBucket b) = [b]"
| "call_bucket (S3DeleteObjects b ks) = [b]"

fun backend_calls :: "event list \<Rightarrow> s3_call list" where
  "backend_calls [] = []"
| "backend_calls (S3 call # evs) = call # backend_calls evs"
| "backend_calls (ev # evs) = backend_calls evs"

definition backend_buckets :: "event list \<Rightarrow> string list" where
  "backend_buckets evs = concat (map call_bucket (backend_calls evs))"

text \<open>
  The error of the first task, in the order of the schedule, whose upload fails; \<open>out i\<close> is
  the outcome of task \<open>i\<close>.
\<close>

fun first_failure :: "(nat \<Rightarrow> error + string) \<Rightarrow> nat list \<Rightarrow> error option" where
  "first_failure out [] = None"
| "first_failure out (i # sched) =
     (case out i of Inl err \<Rightarrow> Some err | Inr url \<Rightarrow> first_failure out sched)"

text \<open>The string a successful call returned (empty for an error).\<close>

definition string_of :: "error + string \<Rightarrow> string" where
  "string_of res = (case res of Inl err \<Rightarrow> [] | Inr v \<Rightarrow> v)"

text \<open>The summary \<open>S3Repository.List\<close> builds for one object of a page.\<close>

definition summary :: "env \<Rightarrow> string \<Rightarrow> s3_Object \<Rightarrow> FileSummary" where
  "summary r bucket obj =
     \<lparr>fs_Key = ToString (obj_Key obj),
      fs_URL = object_url bucket (region r) (ToString (obj_Key obj)),
      fs_Size = ToInt64 (obj_Size obj),
      fs_HumanReadableSize = string_of (formatBytes (ToInt64 (obj_Size obj))),
      fs_Extension = ToLower (UnicodeToLower r) (Ext (ToString (obj_Key obj))),
      fs_StorageClass = obj_StorageClass obj,
      fs_LastModified = ToTime (obj_LastModified obj)\<rparr>"

subsection \<open>A concrete environment\<close>

text \<open>
  An environment to run the service on: a sniffer that knows the signatures of the three
  allowed types, a fixed identifier, and a backend that accepts every request and answers
  every listing with the same page of three objects and a continuation token.
\<close>

definition png_signature :: "byte list" where
  "png_signature = [CHR 0x89, CHR ''P'', CHR ''N'', CHR ''G'', CHR 0x0D, CHR 0x0A, CHR 0x1A, CHR 0x0A]"

definition sniff_magic :: "byte list \<Rightarrow> string" where
  "sniff_magic bs =
     (if HasPrefix bs png_signature then ''image/png''
      else if HasPrefix bs [CHR 0xFF, CHR 0xD8, CHR 0xFF] then ''image/jpeg''
      else if HasPrefix bs ''%PDF-'' then ''application/pdf''
      else ''application/octet-stream'')"

definition demo_page :: ListObjectsV2Output where
  "demo_page =
     \<lparr>Contents =
        [\<lparr>obj_Key = Some ''a/IMG.PNG'', obj_Size = Some 1536,
          obj_StorageClass = ''STANDARD'', obj_LastModified = Some 1\<rparr>,
         \<lparr>obj_Key = Some ''doc.pdf'', obj_Size = Some 1024,
          obj_StorageClass = ''STANDARD'', obj_LastModified = None\<rparr>,
         \<lparr>obj_Key = Some ''b.png'', obj_Size = None,
          obj_StorageClass = ''STANDARD'', obj_LastModified = Some 2\<rparr>],
      NextContinuationToken = Some ''next-1''\<rparr>"

text \<open>
  The case table of the concrete environment: Go's table on the Latin-1 letters and on the
  two letters outside ASCII that fold into ASCII (\<open>U+212A\<close> and \<open>U+0130\<close>); elsewhere it leaves
  the rune as it is.
\<close>

definition demo_case_table :: "rune \<Rightarrow> rune" where
  "demo_case_table r =
     (if 0xC0 \<le> r \<and> r \<le> 0xDE \<and> r \<noteq> 0xD7 then r + 32
      else if r = 0x212A then 0x6B
      else if r = 0x130 then 0x69
      else r)"

definition demo_env :: env where
  "demo_env =
     \<lparr>UnicodeToLower = demo_case_table,
      DetectContentType = sniff_magic,
      NewV7 = Inr 0x0190a1b2c3d47e5f8a9b0c1d2e3f405a,
      region = ''us-east-1'',
      PutObject = (\<lambda>c i. None),
      ListObjectsV2 = (\<lambda>c i. Inr demo_page),
      DeleteObject = (\<lambda>c b k. None),
      GetObject = (\<lambda>c b k. Inl ErrFileNotFound),
      PresignGetObject = (\<lambda>c b k t. Inr ''https://signed''),
      HeadBucket = (\<lambda>c b. Some (External ''NotFound'')),
      CreateBucketS3 = (\<lambda>c b. None),
      ListBuckets = (\<lambda>c. Inr []),
      DeleteBucketS3 = (\<lambda>c b. None),
      DeleteObjects = (\<lambda>c b ks. None)\<rparr>"

definition demo_stream :: "byte list \<Rightarrow> stream" where
  "demo_stream bs = \<lparr>data = bs, pos = 0, read_err = None, seek_err = None\<rparr>"

definition demo_file :: "string \<Rightarrow> byte list \<Rightarrow> File" where
  "demo_file name bs =
     \<lparr>Name = name, URL = [], Content = Some (demo_stream bs),
      Size = word_of_nat (length bs), ContentType = ''image/png''\<rparr>"


text \<open>One environment per task, differing in the identifier, and two batches of files.\<close>

definition demo_envs :: "nat \<Rightarrow> env" where
  "demo_envs i = demo_env\<lparr>NewV7 := Inr (0x0190a1b2c3d47e5f8a9b0c1d2e3f4050 + word_of_nat i)\<rparr>"

definition demo_files :: "File list" where
  "demo_files = [demo_file ''a.png'' (png_signature @ ''0000''), demo_file ''b.pdf'' ''%PDF-1.7'']"

definition demo_files_bad :: "File list" where
  "demo_files_bad =
     [demo_file ''a.png'' ''hello'', demo_file ''b.pdf'' ''%PDF-1.7'',
      (demo_file ''c.png'' [])\<lparr>Content := None\<rparr>]"


text \<open>
  Inputs outside ASCII: a no-break space (\<open>U+00A0\<close>), and a page with a key whose
  extension holds the letter \<open>U+00C4\<close>.
\<close>

definition nbsp :: string where
  "nbsp = [CHR 0xC2, CHR 0xA0]"

definition latin_page :: ListObjectsV2Output where
  "latin_page =
     \<lparr>Contents =
        [\<lparr>obj_Key = Some (''x.'' @ [CHR 0xC3, CHR 0x84] @ ''B''), obj_Size = Some 5,
          obj_StorageClass = ''STANDARD'', obj_LastModified = None\<rparr>,
         \<lparr>obj_Key = Some ''y.ab'', obj_Size = Some 7,
          obj_StorageClass = ''STANDARD'', obj_LastModified = None\<rparr>],
      NextContinuationToken = None\<rparr>"

definition latin_env :: env where
  "latin_env = demo_env\<lparr>ListObjectsV2 := (\<lambda>c i. Inr latin_page)\<rparr>"

section \<open>Properties of \<open>formatBytes\<close>\<close>

lemma sint_int64_quo_1024:
  assumes "1024 \<le>s n"
  shows "sint (int64_quo n 1024) = sint n div 1024"
proof -
  have ge: "1024 \<le> sint n"
    using assms by (simp add: word_sle_eq)
  have lt: "sint n < 2 ^ 63"
    using sint_lt [of n] by simp
  have q: "sint n sdiv 1024 = sint n div 1024"
    using ge by (simp add: signed_divide_int_def sgn_if)
  have "sint (word_of_int (sint n div 1024) :: int64) = sint n div 1024"
    using ge lt by (simp add: sint_sbintrunc' signed_take_bit_int_eq_self)
  then show ?thesis
    by (simp add: int64_quo_def q)
qed


lemma spec_divisions_small: "q < 1024 \<Longrightarrow> spec_divisions q = 0"
  by (simp add: spec_divisions.simps)

lemma spec_divisions_step: "1024 \<le> q \<Longrightarrow> spec_divisions q = Suc (spec_divisions (q div 1024))"
  by (subst spec_divisions.simps) simp

lemma spec_divisions_le: "q < 1024 ^ Suc j \<Longrightarrow> spec_divisions q \<le> j"
proof (induction j arbitrary: q)
  case 0
  then show ?case by (simp add: spec_divisions_small)
next
  case (Suc j)
  show ?case
  proof (cases "q < 1024")
    case True
    then show ?thesis by (simp add: spec_divisions_small)
  next
    case False
    have "q div 1024 < 1024 ^ Suc j"
      using Suc.prems by (simp add: div_less_iff_less_mult)
    then have "spec_divisions (q div 1024) \<le> j"
      by (rule Suc.IH)
    then show ?thesis
      using False by (simp add: spec_divisions_step)
  qed
qed

text \<open>The loop multiplies \<open>div\<close> by 1024 and increments \<open>exp\<close> once per further division.\<close>

lemma formatBytes_loop_eq:
  "formatBytes_loop n d e =
     (d * 1024 ^ spec_divisions (sint n), e + int (spec_divisions (sint n)))"
proof (induction n d e rule: formatBytes_loop.induct)
  case (1 n d e)
  show ?case
  proof (cases "1024 \<le>s n")
    case True
    then have ge: "1024 \<le> sint n"
      by (simp add: word_sle_eq)
    have q: "sint (int64_quo n 1024) = sint n div 1024"
      by (rule sint_int64_quo_1024 [OF True])
    show ?thesis
      using True "1.IH" [OF True] ge
      by (subst formatBytes_loop.simps) (simp add: q spec_divisions_step)
  next
    case False
    then have "sint n < 1024"
      by (simp add: word_sle_eq)
    then show ?thesis
      using False by (subst formatBytes_loop.simps) (simp add: spec_divisions_small)
  qed
qed

lemma sint_pow_1024:
  assumes "k \<le> 6"
  shows "sint ((1024 :: int64) ^ k) = 1024 ^ k"
proof -
  from assms have "k = 0 \<or> k = 1 \<or> k = 2 \<or> k = 3 \<or> k = 4 \<or> k = 5 \<or> k = 6"
    by arith
  then show ?thesis
    by (elim disjE) simp_all
qed

lemma formatBytes_large:
  assumes "\<not> b <s 1024"
  shows "1 \<le> spec_divisions (sint b) \<and> spec_divisions (sint b) \<le> 6 \<and>
    formatBytes_loop (int64_quo b 1024) 1024 0 =
      ((1024 :: int64) ^ spec_divisions (sint b), int (spec_divisions (sint b)) - 1)"
proof -
  from assms have le: "1024 \<le>s b"
    by (simp add: word_sless_alt word_sle_eq)
  then have ge: "1024 \<le> sint b"
    by (simp add: word_sle_eq)
  have q: "sint (int64_quo b 1024) = sint b div 1024"
    by (rule sint_int64_quo_1024 [OF le])
  have "sint b < 2 ^ 63"
    using sint_lt [of b] by simp
  then have "sint b div 1024 < 1024 ^ Suc 5"
    by simp
  then have five: "spec_divisions (sint b div 1024) \<le> 5"
    by (rule spec_divisions_le)
  have k: "spec_divisions (sint b) = Suc (spec_divisions (sint b div 1024))"
    using ge by (rule spec_divisions_step)
  show ?thesis
    using five by (simp add: formatBytes_loop_eq q k)
qed

lemma formatBytes_small: "b <s 1024 \<Longrightarrow> formatBytes b = Inr (itoa (sint b) @ '' B'')"
  by (simp add: formatBytes_def)

lemma formatBytes_large_eq:
  assumes "\<not> b <s 1024"
  shows "formatBytes b =
    Inr (sprintf_1f (float64_quot (sint b) (1024 ^ spec_divisions (sint b))) @ '' ''
          @ [''KMGTPE'' ! (spec_divisions (sint b) - 1)] @ ''B'')"
proof -
  note L = formatBytes_large [OF assms]
  from L have k: "1 \<le> spec_divisions (sint b)" "spec_divisions (sint b) \<le> 6"
    by simp_all
  have n: "nat (int (spec_divisions (sint b)) - 1) = spec_divisions (sint b) - 1"
    by simp
  have r: "0 \<le> int (spec_divisions (sint b)) - 1 \<and> int (spec_divisions (sint b)) - 1 < 6"
    using k by simp
  have s: "sint ((1024 :: int64) ^ spec_divisions (sint b)) = 1024 ^ spec_divisions (sint b)"
    using k(2) by (rule sint_pow_1024)
  have "formatBytes b =
      (let (div', ex) = ((1024 :: int64) ^ spec_divisions (sint b), int (spec_divisions (sint b)) - 1)
       in if 0 \<le> ex \<and> ex < 6
          then Inr (sprintf_1f (float64_quot (sint b) (sint div')) @ '' ''
                     @ [''KMGTPE'' ! nat ex] @ ''B'')
          else Inl PanicIndexOutOfRange)"
    using assms L by (simp add: formatBytes_def)
  also have "\<dots> = Inr (sprintf_1f (float64_quot (sint b) (1024 ^ spec_divisions (sint b))) @ '' ''
          @ [''KMGTPE'' ! (spec_divisions (sint b) - 1)] @ ''B'')"
    unfolding Let_def prod.case s n using r by (simp only: if_True simp_thms)
  finally show ?thesis .
qed

lemma formatBytes_examples:
  "formatBytes 0 = Inr ''0 B''"
  "formatBytes 1023 = Inr ''1023 B''"
  "formatBytes 1024 = Inr ''1.0 KB''"
  "formatBytes 1536 = Inr ''1.5 KB''"
  "formatBytes 1048576 = Inr ''1.0 MB''"
  "formatBytes (- 5) = Inr ''-5 B''"
  "formatBytes 9223372036854775807 = Inr ''8.0 EB''"
  by code_simp+

text \<open>
  C7. The byte-size formatter renders every count below 1024 as \<open>"<n> B"\<close>. Every larger
  count is divided by 1024 repeatedly until the quotient falls below 1024; with \<open>k\<close> the
  number of divisions (between 1 and 6), the result is the quotient \<open>b / 1024 ^ k\<close>, computed
  in \<open>float64\<close> and printed with one decimal place, a space, the \<open>(k - 1)\<close>-th letter of
  \<open>KMGTPE\<close> and \<open>B\<close>. In particular 0, 1023, 1024, 1536 and 1048576 render as \<open>0 B\<close>,
  \<open>1023 B\<close>, \<open>1.0 KB\<close>, \<open>1.5 KB\<close> and \<open>1.0 MB\<close>.
\<close>

theorem formatBytes_renders:
  "(b <s 1024 \<longrightarrow> formatBytes b = Inr (itoa (sint b) @ '' B'')) \<and>
   (\<not> b <s 1024 \<longrightarrow>
      1 \<le> spec_divisions (sint b) \<and> spec_divisions (sint b) \<le> 6 \<and>
      formatBytes b =
        Inr (sprintf_1f (float64_quot (sint b) (1024 ^ spec_divisions (sint b))) @ '' ''
              @ [''KMGTPE'' ! (spec_divisions (sint b) - 1)] @ ''B'')) \<and>
   formatBytes 0 = Inr ''0 B'' \<and>
   formatBytes 1023 = Inr ''1023 B'' \<and>
   formatBytes 1024 = Inr ''1.0 KB'' \<and>
   formatBytes 1536 = Inr ''1.5 KB'' \<and>
   formatBytes 1048576 = Inr ''1.0 MB''"
  using formatBytes_small [of b] formatBytes_large [of b] formatBytes_large_eq [of b]
  by (simp only: formatBytes_examples simp_thms) blast

theorem formatBytes_renders_witness:
  "(1023 :: int64) <s 1024 \<and> formatBytes 1023 = Inr (itoa (sint (1023 :: int64)) @ '' B'') \<and>
   \<not> (1536 :: int64) <s 1024 \<and> spec_divisions (sint (1536 :: int64)) = 1 \<and>
   formatBytes 1536 =
     Inr (sprintf_1f (float64_quot (sint (1536 :: int64)) (1024 ^ 1)) @ '' ''
           @ [''KMGTPE'' ! 0] @ ''B'')"
proof -
  have a: "(1023 :: int64) <s 1024" and b: "\<not> (1536 :: int64) <s 1024"
    by simp_all
  have k: "spec_divisions (sint (1536 :: int64)) = 1"
    by code_simp
  show ?thesis
    using formatBytes_renders [of 1023] formatBytes_renders [of 1536] a b k
    by simp
qed

text \<open>
  C10. The formatter is total on \<open>int64\<close>: the loop terminates (the termination proof of
  \<open>formatBytes_loop\<close>), the unit index it computes lies between 0 and 5, so that indexing
  \<open>KMGTPE\<close> never goes out of range and a string is returned for every input, also for the
  largest \<open>int64\<close>; every negative input is rendered by the \<open>"<n> B"\<close> branch, for example
  \<open>-5\<close> as \<open>-5 B\<close>.
\<close>

theorem formatBytes_total:
  "(\<exists>s. formatBytes b = Inr s) \<and>
   (\<not> b <s 1024 \<longrightarrow>
      0 \<le> snd (formatBytes_loop (int64_quo b 1024) 1024 0) \<and>
      snd (formatBytes_loop (int64_quo b 1024) 1024 0) \<le> 5) \<and>
   (b <s 0 \<longrightarrow> formatBytes b = Inr (itoa (sint b) @ '' B'')) \<and>
   formatBytes (- 5) = Inr ''-5 B'' \<and>
   formatBytes 9223372036854775807 = Inr ''8.0 EB''"
proof -
  have total: "\<exists>s. formatBytes b = Inr s"
    using formatBytes_small [of b] formatBytes_large_eq [of b] by blast
  have index: "0 \<le> snd (formatBytes_loop (int64_quo b 1024) 1024 0) \<and>
      snd (formatBytes_loop (int64_quo b 1024) 1024 0) \<le> 5" if "\<not> b <s 1024"
    using formatBytes_large [OF that] by simp
  have neg: "formatBytes b = Inr (itoa (sint b) @ '' B'')" if "b <s 0"
  proof -
    from that have "b <s 1024"
      by (simp add: word_sless_alt)
    then show ?thesis
      by (rule formatBytes_small)
  qed
  show ?thesis
    using total index neg by (simp only: formatBytes_examples simp_thms) blast
qed

theorem formatBytes_total_witness:
  "\<not> (9223372036854775807 :: int64) <s 1024 \<and>
   snd (formatBytes_loop (int64_quo 9223372036854775807 1024) 1024 0) \<le> 5 \<and>
   (- 5 :: int64) <s 0 \<and>
   formatBytes (- 5) = Inr (itoa (sint (- 5 :: int64)) @ '' B'')"
proof -
  have a: "\<not> (9223372036854775807 :: int64) <s 1024" and b: "(- 5 :: int64) <s 0"
    by (simp_all add: word_sless_alt)
  show ?thesis
    using formatBytes_total [of 9223372036854775807] formatBytes_total [of "- 5"] a b
    by simp
qed


section \<open>Properties of the validators\<close>

lemma regex_is_spec_pattern:
  assumes "3 \<le> length t" "length t \<le> 63"
  shows "bucketDNSNameRegex t = spec_pattern t"
proof (cases t)
  case Nil
  with assms show ?thesis by simp
next
  case (Cons c cs)
  with assms have cs: "cs \<noteq> []" "2 \<le> length cs" "length cs \<le> 62"
    by auto
  then have "1 \<le> length (butlast cs)" "length (butlast cs) \<le> 61"
    by simp_all
  then show ?thesis
    using Cons cs by (auto simp add: bucketDNSNameRegex_def spec_pattern_def)
qed

lemma errors_distinct:
  "length_error \<noteq> pattern_error" "length_error \<noteq> dots_error" "pattern_error \<noteq> dots_error"
  "ErrBucketNameRequired \<noteq> length_error" "ErrBucketNameRequired \<noteq> pattern_error"
  "ErrBucketNameRequired \<noteq> dots_error"
  by (simp_all add: length_error_def pattern_error_def dots_error_def)

text \<open>The checks of the validator run in order; the first that fails decides the error.\<close>

lemma validateBucketName_cascade:
  "validateBucketName r s =
     (let t = TrimSpace (ToLower (UnicodeToLower r) s)
      in if t = [] then Some ErrBucketNameRequired
         else if length t < 3 \<or> 63 < length t then Some length_error
         else if \<not> spec_pattern t then Some pattern_error
         else if Contains t ''..'' then Some dots_error
         else None)"
proof -
  have "bucketDNSNameRegex t = spec_pattern t" if "\<not> (length t < 3 \<or> 63 < length t)" for t
    using that by (intro regex_is_spec_pattern) simp_all
  then show ?thesis
    by (simp add: validateBucketName_def Let_def minBucketNameLength_def maxBucketNameLength_def)
qed

lemma normalize_examples:
  "TrimSpace (ToLower (UnicodeToLower demo_env) []) = []"
  "TrimSpace (ToLower (UnicodeToLower demo_env) ''a!'') = ''a!''"
  "TrimSpace (ToLower (UnicodeToLower demo_env) ''a..b'') = ''a..b''"
  "TrimSpace (ToLower (UnicodeToLower demo_env) '' MyBucket '') = ''mybucket''"
  "TrimSpace (ToLower (UnicodeToLower demo_env) (nbsp @ ''Abc'')) = ''abc''"
  "TrimSpace (ToLower (UnicodeToLower demo_env) nbsp) = []"
  by code_simp+

lemma validateBucketName_examples:
  "validateBucketName demo_env [] = Some ErrBucketNameRequired"
  "validateBucketName demo_env ''a!'' = Some length_error"
  "validateBucketName demo_env ''a..b'' = Some dots_error"
  "validateBucketName demo_env '' MyBucket '' = None"
  "validateBucketName demo_env ''my-bucket'' = None"
  "validateBucketName demo_env (nbsp @ ''Abc'') = None"
  "validateBucketName demo_env nbsp = Some ErrBucketNameRequired"
  by code_simp+

text \<open>
  C3, as the code has it. With \<open>t\<close> the candidate after \<open>strings.ToLower\<close> and
  \<open>strings.TrimSpace\<close> (which fold and trim Unicode text, not only ASCII), the validator
  returns \<open>ErrBucketNameRequired\<close> exactly when \<open>t\<close> is empty; the length error exactly when
  \<open>t\<close> is not empty and its length lies outside \<open>[3, 63]\<close>; the pattern error exactly when the
  length lies inside \<open>[3, 63]\<close> and \<open>t\<close> does not start and end with a lowercase alphanumeric
  with only lowercase alphanumerics, dots and hyphens in between; the consecutive-dots
  error exactly when \<open>t\<close> passes these checks and contains two consecutive dots. A name that
  contains two consecutive dots is never accepted, and in every other case the validator
  succeeds.
\<close>

theorem validateBucketName_rules:
  fixes r :: env and s :: string
  defines "t \<equiv> TrimSpace (ToLower (UnicodeToLower r) s)"
  shows
    "(validateBucketName r s = Some ErrBucketNameRequired \<longleftrightarrow> t = []) \<and>
     (validateBucketName r s = Some length_error \<longleftrightarrow> t \<noteq> [] \<and> (length t < 3 \<or> 63 < length t)) \<and>
     (validateBucketName r s = Some pattern_error \<longleftrightarrow>
        3 \<le> length t \<and> length t \<le> 63 \<and> \<not> spec_pattern t) \<and>
     (validateBucketName r s = Some dots_error \<longleftrightarrow>
        3 \<le> length t \<and> length t \<le> 63 \<and> spec_pattern t \<and> Contains t ''..'') \<and>
     (Contains t ''..'' \<longrightarrow> validateBucketName r s \<noteq> None) \<and>
     (validateBucketName r s = None \<longleftrightarrow>
        3 \<le> length t \<and> length t \<le> 63 \<and> spec_pattern t \<and> \<not> Contains t ''..'')"
  unfolding t_def validateBucketName_cascade [of r s] Let_def
  using errors_distinct by (auto simp: not_less)

theorem validateBucketName_rules_witness:
  "Contains (TrimSpace (ToLower (UnicodeToLower demo_env) ''a..b'')) ''..'' \<and>
   validateBucketName demo_env ''a..b'' \<noteq> None \<and>
   validateBucketName demo_env ''a..b'' = Some dots_error \<and>
   TrimSpace (ToLower (UnicodeToLower demo_env) (nbsp @ ''Abc'')) = ''abc'' \<and>
   validateBucketName demo_env (nbsp @ ''Abc'') = None \<and>
   TrimSpace (ToLower (UnicodeToLower demo_env) nbsp) = [] \<and>
   validateBucketName demo_env nbsp = Some ErrBucketNameRequired"
proof -
  have c: "Contains (TrimSpace (ToLower (UnicodeToLower demo_env) ''a..b'')) ''..''"
    by code_simp
  have d: "validateBucketName demo_env ''a..b'' \<noteq> None"
    using validateBucketName_rules [where r = demo_env and s = "''a..b''"] c by blast
  have e: "validateBucketName demo_env nbsp = Some ErrBucketNameRequired"
    using validateBucketName_rules [where r = demo_env and s = nbsp] normalize_examples(6)
    by blast
  show ?thesis
    using c d e validateBucketName_examples(3) validateBucketName_examples(6)
      normalize_examples(5) normalize_examples(6)
    by (intro conjI) assumption+
qed

text \<open>
  The claim as it is written fails: the empty name has a length outside \<open>[3, 63]\<close>, yet the
  error is \<open>ErrBucketNameRequired\<close>, not the length error; and the name \<open>a!\<close> does not follow
  the pattern, yet the error is the length error, not the pattern error.
\<close>

theorem validateBucketName_exactly_when_counterexample:
  "length (TrimSpace (ToLower (UnicodeToLower demo_env) [])) < 3 \<and>
   validateBucketName demo_env [] \<noteq> Some length_error \<and>
   \<not> spec_pattern (TrimSpace (ToLower (UnicodeToLower demo_env) ''a!'')) \<and>
   validateBucketName demo_env ''a!'' \<noteq> Some pattern_error"
proof -
  have "\<not> spec_pattern ''a!''"
    by code_simp
  then show ?thesis
    using errors_distinct by (simp add: normalize_examples validateBucketName_examples)
qed

lemma stream_Read_ok:
  "read_err s = None \<Longrightarrow> fst (stream_Read s 512) = take 512 (drop (pos s) (data s))"
  by (simp add: stream_Read_def)

lemma validateFile_nil:
  "Content f = None \<Longrightarrow>
   validateFile r f = (Some (Errorf ''file content must support seeking''), f, [])"
  by (simp add: validateFile_def)

lemma validateFile_io_ok:
  assumes "Content f = Some s" "io_ok s"
  shows "validateFile r f =
    ((if allowedTypes (DetectContentType r (fst (stream_Read s 512))) then None
      else Some ErrInvalidFileType),
     f\<lparr>Content := Some ((snd (snd (stream_Read s 512)))\<lparr>pos := 0\<rparr>)\<rparr>, [StreamRead, StreamSeek])"
  using assms
  by (auto simp: validateFile_def io_ok_def stream_Read_def stream_SeekStart_def
      split: option.splits prod.splits sum.splits)

lemma validateFile_io_fail:
  assumes "Content f = Some s" "\<not> io_ok s"
  shows "\<exists>msg err. fst (validateFile r f) = Some (Wrapped msg err)"
  using assms
  by (auto simp: validateFile_def io_ok_def stream_Read_def stream_SeekStart_def
      split: option.splits prod.splits sum.splits)

lemma validateFile_events:
  "set (snd (snd (validateFile r f))) \<subseteq> {StreamRead, StreamSeek}"
  by (auto simp: validateFile_def stream_Read_def stream_SeekStart_def
      split: option.splits prod.splits sum.splits)

lemma validateFile_Name: "Name (fst (snd (validateFile r f))) = Name f"
  by (auto simp: validateFile_def stream_Read_def stream_SeekStart_def
      split: option.splits prod.splits sum.splits)

lemma stream_Read_data: "data (snd (snd (stream_Read s k))) = data s"
  by (simp add: stream_Read_def split: option.splits)

lemma allowedTypes_iff:
  "allowedTypes t \<longleftrightarrow> t = ''image/jpeg'' \<or> t = ''image/png'' \<or> t = ''application/pdf''"
  by (auto simp: allowedTypes_def)

lemma demo_validate:
  "validateFile demo_env (demo_file ''a.png'' (png_signature @ ''0000'')) =
     (None, demo_file ''a.png'' (png_signature @ ''0000''), [StreamRead, StreamSeek])"
  by code_simp

lemma demo_validate_bad:
  "fst (validateFile demo_env (demo_file ''a.png'' ''hello'')) = Some ErrInvalidFileType"
  by code_simp

text \<open>
  C4, as the code has it. For a file with a seekable stream whose \<open>Read\<close> and \<open>Seek\<close>
  succeed, the content validator accepts exactly when the type detected from the bytes it
  reads is \<open>image/jpeg\<close>, \<open>image/png\<close> or \<open>application/pdf\<close>; on acceptance the read position
  of the stream is 0 and its bytes are unchanged; every other detected type is rejected with
  \<open>ErrInvalidFileType\<close>. The bytes read are the next 512 bytes, or fewer, from the position
  the stream is handed over with: the first 512 bytes of the stream only when that position
  is 0. When \<open>Read\<close> or \<open>Seek\<close> fails the validator rejects with the wrapped I/O error.
\<close>

theorem validateFile_accepts:
  assumes "Content f = Some s"
  shows
    "(fst (validateFile r f) = None \<longleftrightarrow>
        io_ok s \<and> allowedTypes (DetectContentType r (fst (stream_Read s 512)))) \<and>
     (fst (validateFile r f) = None \<longrightarrow>
        (\<exists>s'. Content (fst (snd (validateFile r f))) = Some s' \<and> pos s' = 0 \<and> data s' = data s)) \<and>
     (io_ok s \<and> \<not> allowedTypes (DetectContentType r (fst (stream_Read s 512))) \<longrightarrow>
        fst (validateFile r f) = Some ErrInvalidFileType) \<and>
     (read_err s = None \<longrightarrow> fst (stream_Read s 512) = take 512 (drop (pos s) (data s))) \<and>
     (read_err s = None \<and> pos s = 0 \<longrightarrow> fst (stream_Read s 512) = take 512 (data s)) \<and>
     (\<not> io_ok s \<longrightarrow> (\<exists>msg err. fst (validateFile r f) = Some (Wrapped msg err))) \<and>
     (\<forall>t. allowedTypes t \<longleftrightarrow> t = ''image/jpeg'' \<or> t = ''image/png'' \<or> t = ''application/pdf'')"
proof (cases "io_ok s")
  case True
  show ?thesis
    using validateFile_io_ok [OF assms True, of r] True
    by (auto simp: stream_Read_ok stream_Read_data allowedTypes_iff)
next
  case False
  show ?thesis
    using validateFile_io_fail [OF assms False, of r] False
    by (auto simp: stream_Read_ok allowedTypes_iff)
qed

theorem validateFile_accepts_witness:
  "Content (demo_file ''a.png'' (png_signature @ ''0000'')) = Some (demo_stream (png_signature @ ''0000'')) \<and>
   io_ok (demo_stream (png_signature @ ''0000'')) \<and>
   DetectContentType demo_env (take 512 (png_signature @ ''0000'')) = ''image/png'' \<and>
   fst (validateFile demo_env (demo_file ''a.png'' (png_signature @ ''0000''))) = None \<and>
   Content (fst (snd (validateFile demo_env (demo_file ''a.png'' (png_signature @ ''0000''))))) =
     Some (demo_stream (png_signature @ ''0000'')) \<and>
   pos (demo_stream (png_signature @ ''0000'')) = 0 \<and>
   io_ok (demo_stream ''hello'') \<and>
   \<not> allowedTypes (DetectContentType demo_env (fst (stream_Read (demo_stream ''hello'') 512))) \<and>
   fst (validateFile demo_env (demo_file ''a.png'' ''hello'')) = Some ErrInvalidFileType"
proof -
  have c: "Content (demo_file ''a.png'' (png_signature @ ''0000'')) = Some (demo_stream (png_signature @ ''0000''))"
    and c': "Content (demo_file ''a.png'' ''hello'') = Some (demo_stream ''hello'')"
    by (simp_all add: demo_file_def)
  have ok: "io_ok (demo_stream (png_signature @ ''0000''))" "io_ok (demo_stream ''hello'')"
    by (simp_all add: io_ok_def demo_stream_def)
  have d: "DetectContentType demo_env (take 512 (png_signature @ ''0000'')) = ''image/png''"
    by code_simp
  have p: "pos (demo_stream (png_signature @ ''0000'')) = 0"
    by (simp add: demo_stream_def)
  have bad: "\<not> allowedTypes (DetectContentType demo_env (fst (stream_Read (demo_stream ''hello'') 512)))"
    by code_simp
  show ?thesis
    using validateFile_accepts [OF c, of demo_env] validateFile_accepts [OF c', of demo_env]
      c ok d p bad
    by (simp add: demo_validate)
qed

text \<open>
  The claim as it is written fails. A stream holding \<open>junk!%PDF-1.7\<close> and handed over at
  offset 5 is accepted, the bytes read being \<open>%PDF-1.7\<close>, although the type detected from
  its first 512 bytes is not an allowed one. And a stream whose first bytes are a PNG
  image but whose \<open>Seek\<close> fails is rejected, with the wrapped I/O error.
\<close>

theorem validateFile_first_bytes_counterexample:
  "fst (validateFile demo_env
         ((demo_file ''a.pdf'' ''junk!%PDF-1.7'')
            \<lparr>Content := Some ((demo_stream ''junk!%PDF-1.7'')\<lparr>pos := 5\<rparr>)\<rparr>)) = None \<and>
   \<not> allowedTypes (DetectContentType demo_env (take 512 ''junk!%PDF-1.7'')) \<and>
   allowedTypes (DetectContentType demo_env (take 512 (png_signature @ ''0000''))) \<and>
   fst (validateFile demo_env
         ((demo_file ''a.png'' (png_signature @ ''0000''))
            \<lparr>Content := Some ((demo_stream (png_signature @ ''0000''))
                               \<lparr>seek_err := Some (External ''file already closed'')\<rparr>)\<rparr>)) =
     Some (Wrapped ''failed to reset file pointer'' (External ''file already closed''))"
  by code_simp




section \<open>Properties of the single upload\<close>

lemma backend_calls_stream_events:
  "set evs \<subseteq> {StreamRead, StreamSeek} \<Longrightarrow> backend_calls evs = []"
  by (induction evs rule: backend_calls.induct) auto

lemma backend_calls_append: "backend_calls (xs @ ys) = backend_calls xs @ backend_calls ys"
  by (induction xs rule: backend_calls.induct) auto

lemma validateFile_no_backend: "backend_calls (snd (snd (validateFile r f))) = []"
  by (rule backend_calls_stream_events) (rule validateFile_events)

lemma UploadFile_invalid_bucket:
  "validateBucketName r bucket = Some err \<Longrightarrow> UploadFile r c bucket fl = (Inl err, fl, [])"
  by (simp add: UploadFile_def)

lemma UploadFile_invalid_file:
  assumes "validateBucketName r bucket = None" "fst (validateFile r fl) = Some err"
  shows "UploadFile r c bucket fl =
    (Inl err, fst (snd (validateFile r fl)), snd (snd (validateFile r fl)))"
  using assms by (cases "validateFile r fl") (simp add: UploadFile_def)

lemma UploadFile_valid:
  assumes "validateBucketName r bucket = None" "validateFile r fl = (None, file1, ev1)"
  shows "UploadFile r c bucket fl =
    (case NewV7 r of
       Inl err \<Rightarrow> (Inl (Wrapped ''failed to generate unique id'' err), file1, ev1 @ [UUIDNewV7])
     | Inr uid \<Rightarrow>
         (let file2 = file1\<lparr>Name := uuid_String uid @ Ext (Name file1)\<rparr>;
              input = \<lparr>po_Bucket = bucket, po_Key = Name file2, po_Body = Content file2\<rparr>
          in case PutObject r (WithTimeout uploadTimeout c) input of
               Some err \<Rightarrow>
                 (Inl (Wrapped ''failed to upload'' err), file2,
                  ev1 @ [UUIDNewV7, S3 (S3PutObject input)])
             | None \<Rightarrow>
                 (Inr (object_url bucket (region r) (Name file2)),
                  file2\<lparr>URL := object_url bucket (region r) (Name file2)\<rparr>,
                  ev1 @ [UUIDNewV7, S3 (S3PutObject input)])))"
  using assms
  by (simp add: UploadFile_def S3Repository_Upload_def Let_def split: sum.splits option.splits)

text \<open>
  C5. If the bucket name is rejected, \<open>UploadFile\<close> returns that error, the file and its
  stream are untouched and no event at all has happened: no read, no identifier, no backend
  request. If the bucket name is accepted and the content validator rejects the file,
  \<open>UploadFile\<close> returns that error and the only events are the validator's read and seek:
  no identifier has been generated and no backend request has been made.
\<close>

theorem UploadFile_fail_fast:
  "(validateBucketName r bucket = Some err \<longrightarrow> UploadFile r c bucket fl = (Inl err, fl, [])) \<and>
   (validateBucketName r bucket = None \<and> fst (validateFile r fl) = Some err \<longrightarrow>
      fst (UploadFile r c bucket fl) = Inl err \<and>
      snd (snd (UploadFile r c bucket fl)) = snd (snd (validateFile r fl)) \<and>
      set (snd (snd (UploadFile r c bucket fl))) \<subseteq> {StreamRead, StreamSeek} \<and>
      UUIDNewV7 \<notin> set (snd (snd (UploadFile r c bucket fl))) \<and>
      backend_calls (snd (snd (UploadFile r c bucket fl))) = [])"
proof (intro conjI impI)
  assume "validateBucketName r bucket = Some err"
  then show "UploadFile r c bucket fl = (Inl err, fl, [])"
    by (rule UploadFile_invalid_bucket)
next
  assume a: "validateBucketName r bucket = None \<and> fst (validateFile r fl) = Some err"
  then have u: "UploadFile r c bucket fl =
      (Inl err, fst (snd (validateFile r fl)), snd (snd (validateFile r fl)))"
    by (intro UploadFile_invalid_file) simp_all
  show "fst (UploadFile r c bucket fl) = Inl err"
    by (simp add: u)
  show "snd (snd (UploadFile r c bucket fl)) = snd (snd (validateFile r fl))"
    by (simp add: u)
  show "set (snd (snd (UploadFile r c bucket fl))) \<subseteq> {StreamRead, StreamSeek}"
    using validateFile_events [of r fl] by (simp add: u)
  then show "UUIDNewV7 \<notin> set (snd (snd (UploadFile r c bucket fl)))"
    by auto
  show "backend_calls (snd (snd (UploadFile r c bucket fl))) = []"
    by (simp add: u validateFile_no_backend)
qed

text \<open>
  C2, as the code has it. A successful single upload has generated an identifier and made
  exactly one backend request: a put whose key is the identifier's string followed by the
  extension of the caller-supplied name. The returned locator ends in that key, and the
  file's name and URL are set to the key and to the locator. Nothing of the caller-supplied
  name but its extension enters the key.
\<close>

theorem UploadFile_object_name:
  assumes "fst (UploadFile r c bucket fl) = Inr url"
  shows "\<exists>uid body.
    NewV7 r = Inr uid \<and>
    backend_calls (snd (snd (UploadFile r c bucket fl))) =
      [S3PutObject \<lparr>po_Bucket = bucket, po_Key = uuid_String uid @ Ext (Name fl),
                    po_Body = body\<rparr>] \<and>
    url = object_url bucket (region r) (uuid_String uid @ Ext (Name fl)) \<and>
    Name (fst (snd (UploadFile r c bucket fl))) = uuid_String uid @ Ext (Name fl) \<and>
    URL (fst (snd (UploadFile r c bucket fl))) = url"
proof -
  have vb: "validateBucketName r bucket = None"
    using assms by (cases "validateBucketName r bucket") (simp_all add: UploadFile_invalid_bucket)
  obtain verr file1 ev1 where vf: "validateFile r fl = (verr, file1, ev1)"
    by (cases "validateFile r fl") auto
  have verr: "verr = None"
    using assms UploadFile_invalid_file [OF vb, where fl = fl and c = c] vf by (cases verr) simp_all
  have n1: "Name file1 = Name fl"
    using validateFile_Name [of r fl] vf by simp
  have b1: "backend_calls ev1 = []"
    using validateFile_no_backend [of r fl] vf by simp
  note U = UploadFile_valid [OF vb vf [unfolded verr], where c = c]
  show ?thesis
  proof (cases "NewV7 r")
    case (Inl e)
    with assms U show ?thesis by simp
  next
    case (Inr uid)
    show ?thesis
    proof (cases "PutObject r (WithTimeout uploadTimeout c)
        \<lparr>po_Bucket = bucket, po_Key = uuid_String uid @ Ext (Name fl),
         po_Body = Content file1\<rparr>")
      case (Some e)
      with assms U Inr n1 show ?thesis by (simp add: Let_def)
    next
      case None
      with assms U Inr n1 b1 show ?thesis
        by (simp add: Let_def backend_calls_append)
    qed
  qed
qed


lemma demo_upload:
  "UploadFile demo_env Background ''my-bucket'' (demo_file ''a.png'' (png_signature @ ''0000'')) =
    (Inr (object_url ''my-bucket'' ''us-east-1'' ''0190a1b2-c3d4-7e5f-8a9b-0c1d2e3f405a.png''),
     (demo_file ''0190a1b2-c3d4-7e5f-8a9b-0c1d2e3f405a.png'' (png_signature @ ''0000''))
       \<lparr>URL := object_url ''my-bucket'' ''us-east-1'' ''0190a1b2-c3d4-7e5f-8a9b-0c1d2e3f405a.png''\<rparr>,
     [StreamRead, StreamSeek, UUIDNewV7,
      S3 (S3PutObject \<lparr>po_Bucket = ''my-bucket'',
                        po_Key = ''0190a1b2-c3d4-7e5f-8a9b-0c1d2e3f405a.png'',
                        po_Body = Some (demo_stream (png_signature @ ''0000''))\<rparr>)])"
  by code_simp

theorem UploadFile_fail_fast_witness:
  "validateBucketName demo_env [] = Some ErrBucketNameRequired \<and>
   UploadFile demo_env Background [] (demo_file ''a.png'' ''hello'') =
     (Inl ErrBucketNameRequired, demo_file ''a.png'' ''hello'', []) \<and>
   validateBucketName demo_env ''my-bucket'' = None \<and>
   fst (validateFile demo_env (demo_file ''a.png'' ''hello'')) = Some ErrInvalidFileType \<and>
   fst (UploadFile demo_env Background ''my-bucket'' (demo_file ''a.png'' ''hello'')) =
     Inl ErrInvalidFileType \<and>
   backend_calls (snd (snd (UploadFile demo_env Background ''my-bucket''
     (demo_file ''a.png'' ''hello'')))) = []"
  using
    UploadFile_fail_fast [where bucket = "[]" and err = ErrBucketNameRequired and r = demo_env
      and c = Background and fl = "demo_file ''a.png'' ''hello''"]
    UploadFile_fail_fast [where bucket = "''my-bucket''" and err = ErrInvalidFileType
      and r = demo_env and c = Background and fl = "demo_file ''a.png'' ''hello''"]
    validateBucketName_examples(1) validateBucketName_examples(5) demo_validate_bad
  by blast

theorem UploadFile_object_name_witness:
  "fst (UploadFile demo_env Background ''my-bucket''
         (demo_file ''a.png'' (png_signature @ ''0000''))) =
     Inr (object_url ''my-bucket'' ''us-east-1'' ''0190a1b2-c3d4-7e5f-8a9b-0c1d2e3f405a.png'') \<and>
   (\<exists>uid body.
      NewV7 demo_env = Inr uid \<and>
      backend_calls (snd (snd (UploadFile demo_env Background ''my-bucket''
          (demo_file ''a.png'' (png_signature @ ''0000''))))) =
        [S3PutObject \<lparr>po_Bucket = ''my-bucket'',
                      po_Key = uuid_String uid @ Ext (Name (demo_file ''a.png'' (png_signature @ ''0000''))),
                      po_Body = body\<rparr>])"
proof -
  have h: "fst (UploadFile demo_env Background ''my-bucket''
         (demo_file ''a.png'' (png_signature @ ''0000''))) =
     Inr (object_url ''my-bucket'' ''us-east-1'' ''0190a1b2-c3d4-7e5f-8a9b-0c1d2e3f405a.png'')"
    by (simp add: demo_upload)
  show ?thesis
    using UploadFile_object_name [OF h] h by blast
qed

text \<open>
  The claim as it is written fails: the caller names the file \<open>a.png\<close>, the generated
  identifier ends in \<open>a\<close>, and the persisted key, which ends in \<open>a.png\<close>, contains the whole
  caller-supplied name.
\<close>

theorem UploadFile_key_contains_name_counterexample:
  "fst (UploadFile demo_env Background ''my-bucket''
         (demo_file ''a.png'' (png_signature @ ''0000''))) =
     Inr (object_url ''my-bucket'' ''us-east-1'' ''0190a1b2-c3d4-7e5f-8a9b-0c1d2e3f405a.png'') \<and>
   backend_calls (snd (snd (UploadFile demo_env Background ''my-bucket''
         (demo_file ''a.png'' (png_signature @ ''0000''))))) =
     [S3PutObject \<lparr>po_Bucket = ''my-bucket'',
                   po_Key = ''0190a1b2-c3d4-7e5f-8a9b-0c1d2e3f405a.png'',
                   po_Body = Some (demo_stream (png_signature @ ''0000''))\<rparr>] \<and>
   Contains ''0190a1b2-c3d4-7e5f-8a9b-0c1d2e3f405a.png'' ''a.png''"
proof -
  have "Contains ''0190a1b2-c3d4-7e5f-8a9b-0c1d2e3f405a.png'' ''a.png''"
    by code_simp
  then show ?thesis
    by (simp add: demo_upload)
qed


section \<open>The bucket name a backend request carries\<close>

lemma backend_buckets_Nil: "backend_calls evs = [] \<Longrightarrow> backend_buckets evs = []"
  by (simp add: backend_buckets_def)

lemma backend_buckets_append:
  "backend_buckets (xs @ ys) = backend_buckets xs @ backend_buckets ys"
  by (simp add: backend_buckets_def backend_calls_append)

lemma UploadFile_buckets:
  "set (backend_buckets (snd (snd (UploadFile r c bucket fl)))) \<subseteq> {bucket}"
proof (cases "validateBucketName r bucket")
  case (Some err)
  then show ?thesis
    by (simp add: UploadFile_invalid_bucket backend_buckets_def)
next
  case None
  obtain verr file1 ev1 where vf: "validateFile r fl = (verr, file1, ev1)"
    by (cases "validateFile r fl") auto
  have c1: "backend_calls ev1 = []"
    using validateFile_no_backend [of r fl] vf by simp
  then have b1: "backend_buckets ev1 = []"
    by (simp add: backend_buckets_def)
  show ?thesis
  proof (cases verr)
    case (Some err)
    then show ?thesis
      using UploadFile_invalid_file [OF None, where fl = fl and err = err and c = c] vf b1
      by simp
  next
    case verr: None
    show ?thesis
      using UploadFile_valid [OF None vf [unfolded verr], where c = c] c1
      by (auto simp: Let_def backend_calls_append backend_buckets_def
          split: sum.splits option.splits)
  qed
qed

lemma run_tasks_buckets:
  "set (backend_buckets (g_events g)) \<subseteq> {bucket} \<Longrightarrow>
   set (backend_buckets (g_events (run_tasks envs c bucket sched g))) \<subseteq> {bucket}"
proof (induction sched arbitrary: g)
  case Nil
  then show ?case by simp
next
  case (Cons i sched)
  show ?case
  proof (cases "i < length (g_files g)")
    case False
    then show ?thesis
      using Cons by simp
  next
    case True
    obtain res f ev where u:
      "UploadFile (envs i) (WithCancel (g_err g \<noteq> None) c) bucket (g_files g ! i) = (res, f, ev)"
      by (cases "UploadFile (envs i) (WithCancel (g_err g \<noteq> None) c) bucket (g_files g ! i)") auto
    have ev: "set (backend_buckets ev) \<subseteq> {bucket}"
      using UploadFile_buckets [of "envs i" "WithCancel (g_err g \<noteq> None) c" bucket "g_files g ! i"] u
      by simp
    show ?thesis
    proof (cases res)
      case (Inl err)
      show ?thesis
        using True u Inl ev Cons.prems
        by (simp add: backend_buckets_append Cons.IH)
    next
      case (Inr url)
      show ?thesis
        using True u Inr ev Cons.prems
        by (simp add: backend_buckets_append Cons.IH)
    qed
  qed
qed

lemma UploadMultipleFiles_buckets:
  "set (backend_buckets (snd (snd (UploadMultipleFiles envs sched c bucket fls)))) \<subseteq> {bucket}"
proof -
  have "set (backend_buckets (g_events (run_tasks envs c bucket sched
      \<lparr>g_files = fls, g_results = replicate (length fls) [], g_err = None, g_events = []\<rparr>)))
      \<subseteq> {bucket}"
    by (rule run_tasks_buckets) (simp add: backend_buckets_def)
  then show ?thesis
    by (simp add: UploadMultipleFiles_def Let_def split: option.splits)
qed

lemma simple_ops_buckets:
  "set (backend_buckets (snd (GetDownloadURL r c bucket key))) \<subseteq> {bucket}"
  "set (backend_buckets (snd (DownloadFile r c bucket key))) \<subseteq> {bucket}"
  "set (backend_buckets (snd (DeleteFile r c bucket key))) \<subseteq> {bucket}"
  "set (backend_buckets (snd (DeleteBucket r c bucket))) \<subseteq> {bucket}"
  by (auto simp: GetDownloadURL_def DownloadFile_def DeleteFile_def DeleteBucket_def
      S3Repository_GetPresignURL_def S3Repository_Download_def S3Repository_Delete_def
      S3Repository_DeleteBucket_def backend_buckets_def Let_def split: option.splits)

lemma listing_ops_buckets:
  "set (backend_buckets (snd (ListFiles r c bucket ext token limit0))) \<subseteq> {bucket}"
  "set (backend_buckets (snd (GetBucketStats r c bucket))) \<subseteq> {bucket}"
  "set (backend_buckets (snd (EmptyBucket r c bucket))) \<subseteq> {bucket}"
  "set (backend_buckets (snd (CreateBucket r c bucket))) \<subseteq> {bucket}"
  by (auto simp: ListFiles_def GetBucketStats_def EmptyBucket_def CreateBucket_def
      S3Repository_List_def S3Repository_GetStats_def S3Repository_DeleteAll_def
      S3Repository_CheckBucketExists_def S3Repository_CreateBucket_def bucket_only_def
      backend_buckets_def Let_def split: option.splits sum.splits prod.splits if_splits)



lemma demo_upload_buckets:
  "backend_buckets (snd (snd (UploadFile demo_env Background '' MyBucket ''
     (demo_file ''a.png'' (png_signature @ ''0000''))))) = ['' MyBucket '']"
  by code_simp

text \<open>
  C9. The normalised bucket name exists only inside the validator. Every backend request
  made by an operation that takes a bucket names the bucket exactly as the caller gave it,
  and for a valid name the operations that go straight to the backend do send it. So for
  \<open>" MyBucket "\<close> validation succeeds, on the folded name \<open>mybucket\<close>, and the backend
  receives \<open>" MyBucket "\<close>.
\<close>

theorem bucket_forwarded_as_given:
  "set (backend_buckets (snd (snd (UploadFile r c bucket fl)))) \<subseteq> {bucket} \<and>
   set (backend_buckets (snd (snd (UploadMultipleFiles envs sched c bucket fls)))) \<subseteq> {bucket} \<and>
   set (backend_buckets (snd (GetDownloadURL r c bucket key))) \<subseteq> {bucket} \<and>
   set (backend_buckets (snd (DownloadFile r c bucket key))) \<subseteq> {bucket} \<and>
   set (backend_buckets (snd (ListFiles r c bucket ext token limit0))) \<subseteq> {bucket} \<and>
   set (backend_buckets (snd (DeleteFile r c bucket key))) \<subseteq> {bucket} \<and>
   set (backend_buckets (snd (GetBucketStats r c bucket))) \<subseteq> {bucket} \<and>
   set (backend_buckets (snd (CreateBucket r c bucket))) \<subseteq> {bucket} \<and>
   set (backend_buckets (snd (DeleteBucket r c bucket))) \<subseteq> {bucket} \<and>
   set (backend_buckets (snd (EmptyBucket r c bucket))) \<subseteq> {bucket} \<and>
   (validateBucketName r bucket = None \<longrightarrow>
      backend_buckets (snd (GetDownloadURL r c bucket key)) = [bucket] \<and>
      backend_buckets (snd (DownloadFile r c bucket key)) = [bucket] \<and>
      backend_buckets (snd (ListFiles r c bucket ext token limit0)) = [bucket] \<and>
      backend_buckets (snd (GetBucketStats r c bucket)) = [bucket] \<and>
      backend_buckets (snd (DeleteBucket r c bucket)) = [bucket]) \<and>
   validateBucketName demo_env '' MyBucket '' = None \<and>
   TrimSpace (ToLower (UnicodeToLower demo_env) '' MyBucket '') = ''mybucket'' \<and>
   backend_buckets (snd (snd (UploadFile demo_env Background '' MyBucket ''
     (demo_file ''a.png'' (png_signature @ ''0000''))))) = ['' MyBucket '']"
proof -
  have sent: "validateBucketName r bucket = None \<longrightarrow>
      backend_buckets (snd (GetDownloadURL r c bucket key)) = [bucket] \<and>
      backend_buckets (snd (DownloadFile r c bucket key)) = [bucket] \<and>
      backend_buckets (snd (ListFiles r c bucket ext token limit0)) = [bucket] \<and>
      backend_buckets (snd (GetBucketStats r c bucket)) = [bucket] \<and>
      backend_buckets (snd (DeleteBucket r c bucket)) = [bucket]"
    by (auto simp: GetDownloadURL_def DownloadFile_def ListFiles_def GetBucketStats_def
        DeleteBucket_def S3Repository_GetPresignURL_def S3Repository_Download_def
        S3Repository_List_def S3Repository_GetStats_def S3Repository_DeleteBucket_def
        bucket_only_def backend_buckets_def Let_def split: sum.splits)
  show ?thesis
    using UploadFile_buckets [of r c bucket fl]
      UploadMultipleFiles_buckets [of envs sched c bucket fls]
      simple_ops_buckets(1) [of r c bucket key] simple_ops_buckets(2) [of r c bucket key]
      simple_ops_buckets(3) [of r c bucket key] simple_ops_buckets(4) [of r c bucket]
      listing_ops_buckets(1) [of r c bucket ext token limit0]
      listing_ops_buckets(2) [of r c bucket] listing_ops_buckets(3) [of r c bucket]
      listing_ops_buckets(4) [of r c bucket]
      sent validateBucketName_examples(4) normalize_examples(4) demo_upload_buckets
    by blast
qed

theorem bucket_forwarded_as_given_witness:
  "validateBucketName demo_env '' MyBucket '' = None \<and>
   backend_buckets (snd (DeleteBucket demo_env Background '' MyBucket '')) = ['' MyBucket ''] \<and>
   backend_buckets (snd (GetBucketStats demo_env Background '' MyBucket '')) = ['' MyBucket '']"
proof -
  note t = bucket_forwarded_as_given [where bucket = "'' MyBucket ''" and r = demo_env
      and c = Background and fl = "demo_file [] []" and envs = "\<lambda>i. demo_env" and sched = "[]"
      and fls = "[]" and key = "[]" and ext = "[]" and token = "[]" and ?limit0.0 = 0]
  have v: "validateBucketName demo_env '' MyBucket '' = None"
    by (rule validateBucketName_examples(4))
  from t have "validateBucketName demo_env '' MyBucket '' = None \<longrightarrow>
      backend_buckets (snd (GetDownloadURL demo_env Background '' MyBucket '' [])) = ['' MyBucket ''] \<and>
      backend_buckets (snd (DownloadFile demo_env Background '' MyBucket '' [])) = ['' MyBucket ''] \<and>
      backend_buckets (snd (ListFiles demo_env Background '' MyBucket '' [] [] 0)) = ['' MyBucket ''] \<and>
      backend_buckets (snd (GetBucketStats demo_env Background '' MyBucket '')) = ['' MyBucket ''] \<and>
      backend_buckets (snd (DeleteBucket demo_env Background '' MyBucket '')) = ['' MyBucket '']"
    by (elim conjE)
  with v show ?thesis
    by (elim impE conjE) (assumption, intro conjI, assumption+)
qed

section \<open>Properties of listing and statistics\<close>

lemma formatBytes_Inr: "\<exists>s. formatBytes b = Inr s"
  using formatBytes_small [of b] formatBytes_large_eq [of b] by blast

lemma List_files_eq: "List_files r bucket objs = Inr (map (summary r bucket) objs)"
proof (induction objs)
  case Nil
  then show ?case by simp
next
  case (Cons obj objs)
  obtain s where "formatBytes (ToInt64 (obj_Size obj)) = Inr s"
    using formatBytes_Inr by blast
  then show ?case
    using Cons by (simp add: Let_def summary_def string_of_def)
qed

lemma S3Repository_List_eq:
  "S3Repository_List r c bucket prefix token limit =
     (let input = \<lparr>lo_Bucket = bucket, lo_Prefix = Some prefix,
                    lo_ContinuationToken = (if token = [] then None else Some token),
                    lo_MaxKeys = Some limit\<rparr>
      in (case ListObjectsV2 r c input of
            Inl err \<Rightarrow> Inl (Wrapped ''failed to list objects'' err)
          | Inr out \<Rightarrow>
              Inr \<lparr>Files = map (summary r bucket) (Contents out),
                   NextToken = ToString (NextContinuationToken out)\<rparr>,
          [S3 (S3ListObjectsV2 input)]))"
  by (simp add: S3Repository_List_def Let_def List_files_eq split: sum.splits)

text \<open>
  C6. For a valid bucket, \<open>ListFiles\<close> makes exactly one backend request: a listing with the
  empty prefix, the caller's continuation token (an empty token is sent as no token) and a
  page size that is 10 whenever the given limit is at most 0. When the backend answers with a
  page, the files returned are the page itself if the extension filter is empty, and
  otherwise those files of the page, in the page's order, whose lowercased extension equals
  the lowercased filter, prefixed with a dot if it has none; the next-page token returned is
  the backend's. A backend error is returned wrapped.
\<close>

theorem ListFiles_page:
  fixes r c bucket ext token limit0
  defines "request \<equiv>
    \<lparr>lo_Bucket = bucket, lo_Prefix = Some [],
     lo_ContinuationToken = (if token = [] then None else Some token),
     lo_MaxKeys = Some (ucast (if limit0 \<le>s 0 then 10 else limit0))\<rparr>"
  assumes valid: "validateBucketName r bucket = None"
  shows
    "snd (ListFiles r c bucket ext token limit0) = [S3 (S3ListObjectsV2 request)] \<and>
     ToString (lo_ContinuationToken request) = token \<and>
     (limit0 \<le>s 0 \<longrightarrow> lo_MaxKeys request = Some 10) \<and>
     (\<forall>out. ListObjectsV2 r c request = Inr out \<longrightarrow>
        fst (ListFiles r c bucket ext token limit0) =
          Inr \<lparr>Files =
                 (if ext = [] then map (summary r bucket) (Contents out)
                  else filter
                    (\<lambda>f. ToLower (UnicodeToLower r) (fs_Extension f) =
                       (if HasPrefix (ToLower (UnicodeToLower r) ext) ''.''
                        then ToLower (UnicodeToLower r) ext
                        else ''.'' @ ToLower (UnicodeToLower r) ext))
                    (map (summary r bucket) (Contents out))),
               NextToken = ToString (NextContinuationToken out)\<rparr>) \<and>
     (\<forall>err. ListObjectsV2 r c request = Inl err \<longrightarrow>
        fst (ListFiles r c bucket ext token limit0) = Inl (Wrapped ''failed to list objects'' err))"
  using valid unfolding request_def
  by (auto simp: ListFiles_def S3Repository_List_eq Let_def ToString_def split: sum.splits)

lemma totalSize_foldl:
  "foldl (\<lambda>acc obj. acc + ToInt64 (obj_Size obj)) a objs =
     a + sum_list (map (\<lambda>obj. ToInt64 (obj_Size obj)) objs)"
  by (induction objs arbitrary: a) (simp_all add: add.assoc)

lemma totalSize_sum: "totalSize objs = sum_list (map (\<lambda>obj. ToInt64 (obj_Size obj)) objs)"
  by (simp add: totalSize_def totalSize_foldl)

lemma word_sum_list_sint:
  "sum_list ws = (word_of_int (sum_list (map sint ws)) :: int64)"
  by (induction ws) simp_all

lemma totalSize_exact:
  assumes "- (2 ^ 63) \<le> (\<Sum>obj\<leftarrow>objs. sint (ToInt64 (obj_Size obj)))"
    and "(\<Sum>obj\<leftarrow>objs. sint (ToInt64 (obj_Size obj))) < 2 ^ 63"
  shows "sint (totalSize objs) = (\<Sum>obj\<leftarrow>objs. sint (ToInt64 (obj_Size obj)))"
proof -
  have "totalSize objs = word_of_int (\<Sum>obj\<leftarrow>objs. sint (ToInt64 (obj_Size obj)))"
    by (simp add: totalSize_sum word_sum_list_sint [of "map (\<lambda>obj. ToInt64 (obj_Size obj)) objs"] comp_def)
  then show ?thesis
    using assms by (simp add: sint_sbintrunc' signed_take_bit_int_eq_self)
qed

text \<open>
  C8. \<open>GetBucketStats\<close> validates the bucket name first: an invalid name is returned as the
  error with no backend request. For a valid name it makes exactly one listing request, for
  the bucket alone; from the page the backend answers with, \<open>TotalFiles\<close> is the number of
  objects of that page, \<open>TotalSizeBytes\<close> the \<open>int64\<close> sum of their sizes (the exact sum
  whenever that fits in an \<open>int64\<close>) and \<open>TotalSizeFormatted\<close> the formatter's rendering of
  that sum, whether or not the page carries a continuation token: the totals cover that
  page only.
\<close>

theorem GetBucketStats_single_page:
  "(validateBucketName r bucket = Some err \<longrightarrow> GetBucketStats r c bucket = (Inl err, [])) \<and>
   (validateBucketName r bucket = None \<longrightarrow>
      snd (GetBucketStats r c bucket) = [S3 (S3ListObjectsV2 (bucket_only bucket))] \<and>
      (\<forall>out. ListObjectsV2 r c (bucket_only bucket) = Inr out \<longrightarrow>
         fst (GetBucketStats r c bucket) =
           Inr \<lparr>BucketName = bucket, TotalFiles = int (length (Contents out)),
                TotalSizeBytes = totalSize (Contents out),
                TotalSizeFormatted = string_of (formatBytes (totalSize (Contents out)))\<rparr> \<and>
         formatBytes (totalSize (Contents out)) =
           Inr (string_of (formatBytes (totalSize (Contents out)))))) \<and>
   totalSize objs = sum_list (map (\<lambda>obj. ToInt64 (obj_Size obj)) objs) \<and>
   (- (2 ^ 63) \<le> (\<Sum>obj\<leftarrow>objs. sint (ToInt64 (obj_Size obj))) \<and>
    (\<Sum>obj\<leftarrow>objs. sint (ToInt64 (obj_Size obj))) < 2 ^ 63 \<longrightarrow>
      sint (totalSize objs) = (\<Sum>obj\<leftarrow>objs. sint (ToInt64 (obj_Size obj))))"
proof -
  have a: "validateBucketName r bucket = Some err \<longrightarrow> GetBucketStats r c bucket = (Inl err, [])"
    by (simp add: GetBucketStats_def)
  have b: "validateBucketName r bucket = None \<longrightarrow>
      snd (GetBucketStats r c bucket) = [S3 (S3ListObjectsV2 (bucket_only bucket))] \<and>
      (\<forall>out. ListObjectsV2 r c (bucket_only bucket) = Inr out \<longrightarrow>
         fst (GetBucketStats r c bucket) =
           Inr \<lparr>BucketName = bucket, TotalFiles = int (length (Contents out)),
                TotalSizeBytes = totalSize (Contents out),
                TotalSizeFormatted = string_of (formatBytes (totalSize (Contents out)))\<rparr> \<and>
         formatBytes (totalSize (Contents out)) =
           Inr (string_of (formatBytes (totalSize (Contents out)))))"
  proof (intro impI conjI allI)
    assume v: "validateBucketName r bucket = None"
    show "snd (GetBucketStats r c bucket) = [S3 (S3ListObjectsV2 (bucket_only bucket))]"
      using v by (simp add: GetBucketStats_def S3Repository_GetStats_def split: sum.splits)
    fix out
    assume l: "ListObjectsV2 r c (bucket_only bucket) = Inr out"
    obtain s where s: "formatBytes (totalSize (Contents out)) = Inr s"
      using formatBytes_Inr by blast
    show "fst (GetBucketStats r c bucket) =
           Inr \<lparr>BucketName = bucket, TotalFiles = int (length (Contents out)),
                TotalSizeBytes = totalSize (Contents out),
                TotalSizeFormatted = string_of (formatBytes (totalSize (Contents out)))\<rparr>"
      using v l s by (simp add: GetBucketStats_def S3Repository_GetStats_def string_of_def)
    show "formatBytes (totalSize (Contents out)) =
           Inr (string_of (formatBytes (totalSize (Contents out))))"
      using s by (simp add: string_of_def)
  qed
  show ?thesis
    using a b totalSize_sum [of objs] totalSize_exact [of objs] by blast
qed


lemma demo_list:
  "ListFiles demo_env Background ''my-bucket'' ''PNG'' [] 0 =
    (Inr \<lparr>Files = [summary demo_env ''my-bucket'' (Contents demo_page ! 0),
                    summary demo_env ''my-bucket'' (Contents demo_page ! 2)],
          NextToken = ''next-1''\<rparr>,
     [S3 (S3ListObjectsV2 \<lparr>lo_Bucket = ''my-bucket'', lo_Prefix = Some [],
            lo_ContinuationToken = None, lo_MaxKeys = Some 10\<rparr>)])"
  by code_simp

lemma latin_list:
  "fst (ListFiles latin_env Background ''my-bucket'' ([CHR 0xC3, CHR 0xA4] @ ''b'') [] 5) =
     Inr \<lparr>Files = [summary latin_env ''my-bucket'' (Contents latin_page ! 0)], NextToken = []\<rparr>"
  "fs_Key (summary latin_env ''my-bucket'' (Contents latin_page ! 0)) =
     ''x.'' @ [CHR 0xC3, CHR 0x84] @ ''B''"
  "fs_Extension (summary latin_env ''my-bucket'' (Contents latin_page ! 0)) =
     ''.'' @ [CHR 0xC3, CHR 0xA4] @ ''b''"
  by code_simp+

lemma demo_stats:
  "GetBucketStats demo_env Background ''my-bucket'' =
    (Inr \<lparr>BucketName = ''my-bucket'', TotalFiles = 3, TotalSizeBytes = 2560,
          TotalSizeFormatted = ''2.5 KB''\<rparr>,
     [S3 (S3ListObjectsV2 (bucket_only ''my-bucket''))])"
  by code_simp


theorem ListFiles_page_witness:
  "validateBucketName demo_env ''my-bucket'' = None \<and>
   snd (ListFiles demo_env Background ''my-bucket'' ''PNG'' [] 0) =
     [S3 (S3ListObjectsV2 \<lparr>lo_Bucket = ''my-bucket'', lo_Prefix = Some [],
            lo_ContinuationToken = None, lo_MaxKeys = Some 10\<rparr>)] \<and>
   ListObjectsV2 demo_env Background
     \<lparr>lo_Bucket = ''my-bucket'', lo_Prefix = Some [],
      lo_ContinuationToken = None, lo_MaxKeys = Some 10\<rparr> = Inr demo_page \<and>
   fst (ListFiles demo_env Background ''my-bucket'' ''PNG'' [] 0) =
     Inr \<lparr>Files = [summary demo_env ''my-bucket'' (Contents demo_page ! 0),
                    summary demo_env ''my-bucket'' (Contents demo_page ! 2)],
          NextToken = ''next-1''\<rparr> \<and>
   fst (ListFiles latin_env Background ''my-bucket'' ([CHR 0xC3, CHR 0xA4] @ ''b'') [] 5) =
     Inr \<lparr>Files = [summary latin_env ''my-bucket'' (Contents latin_page ! 0)], NextToken = []\<rparr> \<and>
   fs_Key (summary latin_env ''my-bucket'' (Contents latin_page ! 0)) =
     ''x.'' @ [CHR 0xC3, CHR 0x84] @ ''B''"
proof -
  have v: "validateBucketName demo_env ''my-bucket'' = None"
    by (rule validateBucketName_examples(5))
  have l: "ListObjectsV2 demo_env Background
     \<lparr>lo_Bucket = ''my-bucket'', lo_Prefix = Some [],
      lo_ContinuationToken = None, lo_MaxKeys = Some 10\<rparr> = Inr demo_page"
    by (simp add: demo_env_def)
  have ascii: "validateBucketName demo_env ''my-bucket'' = None \<and>
   snd (ListFiles demo_env Background ''my-bucket'' ''PNG'' [] 0) =
     [S3 (S3ListObjectsV2 \<lparr>lo_Bucket = ''my-bucket'', lo_Prefix = Some [],
            lo_ContinuationToken = None, lo_MaxKeys = Some 10\<rparr>)] \<and>
   ListObjectsV2 demo_env Background
     \<lparr>lo_Bucket = ''my-bucket'', lo_Prefix = Some [],
      lo_ContinuationToken = None, lo_MaxKeys = Some 10\<rparr> = Inr demo_page \<and>
   fst (ListFiles demo_env Background ''my-bucket'' ''PNG'' [] 0) =
     Inr \<lparr>Files = [summary demo_env ''my-bucket'' (Contents demo_page ! 0),
                    summary demo_env ''my-bucket'' (Contents demo_page ! 2)],
          NextToken = ''next-1''\<rparr>"
    using ListFiles_page [OF v, where c = Background and ext = "''PNG''"
        and token = "[]" and ?limit0.0 = 0] v l
    by (simp add: demo_list)
  show ?thesis
    using ascii latin_list(1) latin_list(2) by (elim conjE, intro conjI) assumption+
qed

theorem GetBucketStats_single_page_witness:
  "validateBucketName demo_env ''my-bucket'' = None \<and>
   ListObjectsV2 demo_env Background (bucket_only ''my-bucket'') = Inr demo_page \<and>
   NextContinuationToken demo_page = Some ''next-1'' \<and>
   snd (GetBucketStats demo_env Background ''my-bucket'') =
     [S3 (S3ListObjectsV2 (bucket_only ''my-bucket''))] \<and>
   fst (GetBucketStats demo_env Background ''my-bucket'') =
     Inr \<lparr>BucketName = ''my-bucket'', TotalFiles = 3, TotalSizeBytes = 2560,
          TotalSizeFormatted = ''2.5 KB''\<rparr> \<and>
   validateBucketName demo_env [] = Some ErrBucketNameRequired \<and>
   GetBucketStats demo_env Background [] = (Inl ErrBucketNameRequired, [])"
proof -
  have v: "validateBucketName demo_env ''my-bucket'' = None"
    by (rule validateBucketName_examples(5))
  have e: "validateBucketName demo_env [] = Some ErrBucketNameRequired"
    by (rule validateBucketName_examples(1))
  have l: "ListObjectsV2 demo_env Background (bucket_only ''my-bucket'') = Inr demo_page"
    by (simp add: demo_env_def)
  have n: "NextContinuationToken demo_page = Some ''next-1''"
    by (simp add: demo_page_def)
  show ?thesis
    using GetBucketStats_single_page [where bucket = "''my-bucket''" and r = demo_env
        and c = Background and err = ErrBucketNameRequired and objs = "[]"]
      GetBucketStats_single_page [where bucket = "[]" and r = demo_env
        and c = Background and err = ErrBucketNameRequired and objs = "[]"]
      v e l n
    by (simp add: demo_stats)
qed



section \<open>Properties of the multi-file upload\<close>

lemma run_tasks_err_sticky:
  "g_err g = Some e \<Longrightarrow> g_err (run_tasks envs c bucket sched g) = Some e"
proof (induction sched arbitrary: g)
  case Nil
  then show ?case by simp
next
  case (Cons i sched)
  show ?case
  proof (cases "i < length (g_files g)")
    case False
    then show ?thesis
      using Cons by simp
  next
    case True
    obtain res f ev where u:
      "UploadFile (envs i) (WithCancel (g_err g \<noteq> None) c) bucket (g_files g ! i) = (res, f, ev)"
      by (cases "UploadFile (envs i) (WithCancel (g_err g \<noteq> None) c) bucket (g_files g ! i)") auto
    show ?thesis
      using True u Cons.prems by (cases res) (simp_all add: Cons.IH)
  qed
qed

lemma length_fold_update:
  "length (fold (\<lambda>i res. res[i := v i]) sched res) = length res"
  by (induction sched arbitrary: res) simp_all

lemma fold_update_nth:
  "j < length res \<Longrightarrow>
   fold (\<lambda>i res. res[i := v i]) sched res ! j = (if j \<in> set sched then v j else res ! j)"
proof (induction sched arbitrary: res)
  case Nil
  then show ?case by simp
next
  case (Cons i sched)
  have "fold (\<lambda>i res. res[i := v i]) sched (res[i := v i]) ! j =
      (if j \<in> set sched then v j else res[i := v i] ! j)"
    using Cons.prems by (intro Cons.IH) simp
  then show ?case
    using Cons.prems by (auto simp: nth_list_update)
qed

lemma run_tasks_spec:
  fixes envs c bucket fls
  defines "out \<equiv> \<lambda>i. fst (UploadFile (envs i) (WithCancel False c) bucket (fls ! i))"
  assumes "distinct sched" "\<forall>i\<in>set sched. i < length fls"
    and "length (g_files g) = length fls" "\<forall>i\<in>set sched. g_files g ! i = fls ! i"
    and "g_err g = None"
  shows "g_err (run_tasks envs c bucket sched g) = first_failure out sched \<and>
    (first_failure out sched = None \<longrightarrow>
       g_results (run_tasks envs c bucket sched g) =
         fold (\<lambda>i res. res[i := string_of (out i)]) sched (g_results g))"
  using assms(2-)
proof (induction sched arbitrary: g)
  case Nil
  then show ?case by simp
next
  case (Cons i sched)
  have i: "i < length (g_files g)" and fi: "g_files g ! i = fls ! i"
    using Cons.prems by simp_all
  obtain res f ev where u:
    "UploadFile (envs i) (WithCancel False c) bucket (fls ! i) = (res, f, ev)"
    by (cases "UploadFile (envs i) (WithCancel False c) bucket (fls ! i)") auto
  then have o: "out i = res"
    by (simp add: out_def)
  show ?case
  proof (cases res)
    case (Inl err)
    let ?g = "g\<lparr>g_files := (g_files g)[i := f], g_err := Some err, g_events := g_events g @ ev\<rparr>"
    have "run_tasks envs c bucket (i # sched) g = run_tasks envs c bucket sched ?g"
      using i fi u Inl Cons.prems(5) by simp
    moreover have "g_err (run_tasks envs c bucket sched ?g) = Some err"
      by (rule run_tasks_err_sticky) simp
    ultimately show ?thesis
      using o Inl by simp
  next
    case (Inr url)
    let ?g = "g\<lparr>g_files := (g_files g)[i := f], g_results := (g_results g)[i := url],
      g_events := g_events g @ ev\<rparr>"
    have step: "run_tasks envs c bucket (i # sched) g = run_tasks envs c bucket sched ?g"
      using i fi u Inr Cons.prems(5) by simp
    have "g_err (run_tasks envs c bucket sched ?g) = first_failure out sched \<and>
      (first_failure out sched = None \<longrightarrow>
         g_results (run_tasks envs c bucket sched ?g) =
           fold (\<lambda>i res. res[i := string_of (out i)]) sched (g_results ?g))"
    proof (rule Cons.IH)
      show "distinct sched"
        using Cons.prems(1) by simp
      show "\<forall>i\<in>set sched. i < length fls"
        using Cons.prems(2) by simp
      show "length (g_files ?g) = length fls"
        using Cons.prems(3) by simp
      show "\<forall>j\<in>set sched. g_files ?g ! j = fls ! j"
      proof
        fix j
        assume j: "j \<in> set sched"
        then have "j \<noteq> i"
          using Cons.prems(1) by auto
        then show "g_files ?g ! j = fls ! j"
          using j Cons.prems(4) by simp
      qed
      show "g_err ?g = None"
        using Cons.prems(5) by simp
    qed
    then show ?thesis
      using step o Inr by (simp add: string_of_def)
  qed
qed


lemma first_failure_None_iff:
  "first_failure out sched = None \<longleftrightarrow> (\<forall>i\<in>set sched. \<exists>url. out i = Inr url)"
  by (induction sched) (auto split: sum.splits)

lemma first_failure_Some:
  "first_failure out sched = Some err \<Longrightarrow>
   \<exists>pre i post. sched = pre @ i # post \<and> out i = Inl err \<and>
     (\<forall>j\<in>set pre. \<exists>url. out j = Inr url)"
proof (induction sched)
  case Nil
  then show ?case by simp
next
  case (Cons k sched)
  show ?case
  proof (cases "out k")
    case (Inl e)
    with Cons.prems have "out k = Inl err"
      by simp
    then have "k # sched = [] @ k # sched \<and> out k = Inl err \<and>
        (\<forall>j\<in>set []. \<exists>url. out j = Inr url)"
      by simp
    then show ?thesis
      by blast
  next
    case (Inr url)
    with Cons.prems have "first_failure out sched = Some err"
      by simp
    then obtain pre i post where p: "sched = pre @ i # post" "out i = Inl err"
        "\<forall>j\<in>set pre. \<exists>url. out j = Inr url"
      using Cons.IH by blast
    have "k # sched = (k # pre) @ i # post \<and> out i = Inl err \<and>
        (\<forall>j\<in>set (k # pre). \<exists>url. out j = Inr url)"
      using p Inr by simp
    then show ?thesis
      by blast
  qed
qed

text \<open>
  C1. Let every task return exactly once, in the order of the schedule, and let \<open>out i\<close> be
  the outcome of the single upload of the \<open>i\<close>-th file. \<open>UploadMultipleFiles\<close> returns either
  an error and no list, or a list and no error. It returns an error exactly when at least
  one upload fails, and the error is that of the first task of the schedule that fails: all
  tasks that returned before it succeeded, and none of their locators is returned. When
  every upload succeeds it returns the list whose \<open>i\<close>-th element is the locator of the
  \<open>i\<close>-th file, whatever the schedule is.
\<close>

theorem UploadMultipleFiles_all_or_nothing:
  fixes envs c bucket fls
  defines "out \<equiv> \<lambda>i. fst (UploadFile (envs i) (WithCancel False c) bucket (fls ! i))"
  assumes sched: "distinct sched" "set sched = {..<length fls}"
  shows
    "fst (UploadMultipleFiles envs sched c bucket fls) =
       (case first_failure out sched of
          Some err \<Rightarrow> Inl err
        | None \<Rightarrow> Inr (map (\<lambda>i. string_of (out i)) [0..<length fls])) \<and>
     (first_failure out sched = None \<longleftrightarrow> (\<forall>i<length fls. \<exists>url. out i = Inr url)) \<and>
     (\<forall>err. first_failure out sched = Some err \<longrightarrow>
        (\<exists>pre i post. sched = pre @ i # post \<and> i < length fls \<and> out i = Inl err \<and>
           (\<forall>j\<in>set pre. \<exists>url. out j = Inr url)))"
proof -
  let ?init = "\<lparr>g_files = fls, g_results = replicate (length fls) [], g_err = None, g_events = []\<rparr>"
  let ?final = "run_tasks envs c bucket sched ?init"
  have spec: "g_err ?final = first_failure out sched \<and>
    (first_failure out sched = None \<longrightarrow>
       g_results ?final = fold (\<lambda>i res. res[i := string_of (out i)]) sched (g_results ?init))"
    unfolding out_def using sched by (intro run_tasks_spec) auto
  have res: "fold (\<lambda>i res. res[i := string_of (out i)]) sched (replicate (length fls) []) =
      map (\<lambda>i. string_of (out i)) [0..<length fls]"
  proof (rule nth_equalityI)
    show "length (fold (\<lambda>i res. res[i := string_of (out i)]) sched (replicate (length fls) [])) =
        length (map (\<lambda>i. string_of (out i)) [0..<length fls])"
      by (simp add: length_fold_update)
  next
    fix j
    assume "j < length (fold (\<lambda>i res. res[i := string_of (out i)]) sched (replicate (length fls) []))"
    then have j: "j < length fls"
      by (simp add: length_fold_update)
    then have "j \<in> set sched"
      using sched by simp
    then show "fold (\<lambda>i res. res[i := string_of (out i)]) sched (replicate (length fls) []) ! j =
        map (\<lambda>i. string_of (out i)) [0..<length fls] ! j"
      using j by (simp add: fold_update_nth)
  qed
  have a: "fst (UploadMultipleFiles envs sched c bucket fls) =
       (case first_failure out sched of
          Some err \<Rightarrow> Inl err
        | None \<Rightarrow> Inr (map (\<lambda>i. string_of (out i)) [0..<length fls]))"
    using spec res by (simp add: UploadMultipleFiles_def Let_def split: option.splits)
  have b: "first_failure out sched = None \<longleftrightarrow> (\<forall>i<length fls. \<exists>url. out i = Inr url)"
    using sched by (auto simp: first_failure_None_iff)
  have c: "\<forall>err. first_failure out sched = Some err \<longrightarrow>
        (\<exists>pre i post. sched = pre @ i # post \<and> i < length fls \<and> out i = Inl err \<and>
           (\<forall>j\<in>set pre. \<exists>url. out j = Inr url))"
  proof (intro allI impI)
    fix err
    assume "first_failure out sched = Some err"
    then obtain pre i post where p: "sched = pre @ i # post" "out i = Inl err"
        "\<forall>j\<in>set pre. \<exists>url. out j = Inr url"
      using first_failure_Some by blast
    then have "i \<in> set sched"
      by simp
    then have "i < length fls"
      using sched by simp
    with p show "\<exists>pre i post. sched = pre @ i # post \<and> i < length fls \<and> out i = Inl err \<and>
           (\<forall>j\<in>set pre. \<exists>url. out j = Inr url)"
      by blast
  qed
  show ?thesis
    using a b c by blast
qed


lemma demo_multi:
  "fst (UploadMultipleFiles demo_envs [1, 0] Background ''my-bucket'' demo_files) =
     Inr [object_url ''my-bucket'' ''us-east-1'' ''0190a1b2-c3d4-7e5f-8a9b-0c1d2e3f4050.png'',
          object_url ''my-bucket'' ''us-east-1'' ''0190a1b2-c3d4-7e5f-8a9b-0c1d2e3f4051.pdf'']"
  by code_simp

lemma demo_multi_bad:
  "fst (UploadMultipleFiles demo_envs [2, 1, 0] Background ''my-bucket'' demo_files_bad) =
     Inl (Errorf ''file content must support seeking'')"
  "fst (UploadMultipleFiles demo_envs [0, 1, 2] Background ''my-bucket'' demo_files_bad) =
     Inl ErrInvalidFileType"
  by code_simp+

lemma demo_first_failure:
  "first_failure (\<lambda>i. fst (UploadFile (demo_envs i) (WithCancel False Background) ''my-bucket''
     (demo_files_bad ! i))) [2, 1, 0] = Some (Errorf ''file content must support seeking'')"
  by code_simp

theorem UploadMultipleFiles_all_or_nothing_witness:
  "distinct [1, 0 :: nat] \<and> set [1, 0] = {..<length demo_files} \<and>
   fst (UploadMultipleFiles demo_envs [1, 0] Background ''my-bucket'' demo_files) =
     Inr [object_url ''my-bucket'' ''us-east-1'' ''0190a1b2-c3d4-7e5f-8a9b-0c1d2e3f4050.png'',
          object_url ''my-bucket'' ''us-east-1'' ''0190a1b2-c3d4-7e5f-8a9b-0c1d2e3f4051.pdf''] \<and>
   distinct [2, 1, 0 :: nat] \<and> set [2, 1, 0] = {..<length demo_files_bad} \<and>
   first_failure (\<lambda>i. fst (UploadFile (demo_envs i) (WithCancel False Background) ''my-bucket''
     (demo_files_bad ! i))) [2, 1, 0] = Some (Errorf ''file content must support seeking'') \<and>
   fst (UploadMultipleFiles demo_envs [2, 1, 0] Background ''my-bucket'' demo_files_bad) =
     Inl (Errorf ''file content must support seeking'')"
proof -
  have d1: "distinct [1, 0 :: nat]" and d2: "distinct [2, 1, 0 :: nat]"
    by simp_all
  have s1: "set [1, 0] = {..<length demo_files}"
    by (auto simp: demo_files_def)
  have s2: "set [2, 1, 0] = {..<length demo_files_bad}"
    by (auto simp: demo_files_bad_def)
  note bad = UploadMultipleFiles_all_or_nothing [OF d2 s2, where envs = demo_envs
      and c = Background and bucket = "''my-bucket''"]
  have b: "fst (UploadMultipleFiles demo_envs [2, 1, 0] Background ''my-bucket'' demo_files_bad) =
     Inl (Errorf ''file content must support seeking'')"
    using bad [THEN conjunct1] by (simp only: demo_first_failure option.case)
  show ?thesis
    using d1 s1 d2 s2 b demo_multi demo_first_failure by (intro conjI) assumption+
qed


end
